theory Spec2Isabelle
  imports Complex_Main
begin

chapter \<open>Customer-message triage: the analysis engines and their fallbacks\<close>

text \<open>
  A shallow embedding of \<^verbatim>\<open>src/utils/apiClient.js\<close>, \<^verbatim>\<open>src/utils/llmHelper.js\<close>,
  \<^verbatim>\<open>src/utils/urgencyScorer.js\<close>, \<^verbatim>\<open>src/utils/templates.js\<close> and of \<^verbatim>\<open>handleAnalyze\<close> in
  \<^verbatim>\<open>src/pages/AnalyzePage.jsx\<close>.

  Texts are lists of 8-bit characters, read as Latin-1 code units: a message or a reply
  holding a code unit above 255 is outside the model. Numbers are exact rationals, so a
  literal such as \<^verbatim>\<open>0.7\<close> stands for the decimal it denotes, and the rounding, overflow
  and underflow of JavaScript's doubles are not modelled; the engines only compare and
  add small integers, on which doubles are exact.
\<close>

section \<open>JavaScript values and string primitives\<close>

datatype jsval =
    JUndefined
  | JNull
  | JBool bool
  | JNumber rat
  | JString string
  | JArray "jsval list"
  | JObject "(string \<times> jsval) list"

text \<open>\<^verbatim>\<open>ToBoolean\<close>: the falsy values are undefined, null, false, 0 and the empty string.\<close>

fun truthy :: "jsval \<Rightarrow> bool" where
  "truthy JUndefined = False"
| "truthy JNull = False"
| "truthy (JBool b) = b"
| "truthy (JNumber n) = (n \<noteq> 0)"
| "truthy (JString s) = (s \<noteq> [])"
| "truthy (JArray xs) = True"
| "truthy (JObject kvs) = True"

text \<open>\<^verbatim>\<open>a || b\<close> on values.\<close>

definition js_or :: "jsval \<Rightarrow> jsval \<Rightarrow> jsval" where
  "js_or a b = (if truthy a then a else b)"

text \<open>
  \<^verbatim>\<open>obj.key\<close> on a value: an object built by \<^verbatim>\<open>JSON.parse\<close> keeps the last of several
  members with one name; a missing member reads as undefined. (The engines read only
  names that \<^verbatim>\<open>Object.prototype\<close> does not define.)
\<close>

fun get_prop :: "jsval \<Rightarrow> string \<Rightarrow> jsval" where
  "get_prop (JObject kvs) k = (case map_of (rev kvs) k of Some v \<Rightarrow> v | None \<Rightarrow> JUndefined)"
| "get_prop _ k = JUndefined"

text \<open>\<^verbatim>\<open>String.prototype.toLowerCase\<close> on Latin-1 code units.\<close>

definition toLowerCase_char :: "char \<Rightarrow> char" where
  "toLowerCase_char c =
     (let n = (of_char c :: nat)
      in if (65 \<le> n \<and> n \<le> 90) \<or> (192 \<le> n \<and> n \<le> 222 \<and> n \<noteq> 215)
         then char_of (n + 32) else c)"

definition toLowerCase :: "string \<Rightarrow> string" where
  "toLowerCase s = map toLowerCase_char s"

text \<open>
  Whether \<^verbatim>\<open>toUpperCase\<close> leaves a code unit as it is. The lower-case letters change; so
  do the sharp s (it becomes two letters), the micro sign and the y with diaeresis (their
  capitals lie above 255).
\<close>

definition toUpperCase_keeps :: "char \<Rightarrow> bool" where
  "toUpperCase_keeps c =
     (let n = (of_char c :: nat)
      in \<not> ((97 \<le> n \<and> n \<le> 122) \<or> (223 \<le> n \<and> n \<noteq> 247) \<or> n = 181))"

text \<open>\<^verbatim>\<open>s.includes(kw)\<close>: \<open>kw\<close> occurs in \<open>s\<close> as a contiguous substring.\<close>

fun starts_with :: "string \<Rightarrow> string \<Rightarrow> bool" where
  "starts_with s [] = True"
| "starts_with [] (k # ks) = False"
| "starts_with (c # cs) (k # ks) = (c = k \<and> starts_with cs ks)"

fun str_includes :: "string \<Rightarrow> string \<Rightarrow> bool" where
  "str_includes [] kw = (kw = [])"
| "str_includes (c # cs) kw = (starts_with (c # cs) kw \<or> str_includes cs kw)"

text \<open>\<^verbatim>\<open>kws.some(kw => s.includes(kw))\<close>.\<close>

definition some_included :: "string list \<Rightarrow> string \<Rightarrow> bool" where
  "some_included kws s = list_ex (\<lambda>kw. str_includes s kw) kws"

text \<open>\<^verbatim>\<open>(s.match(/c/g) || []).length\<close>: the number of occurrences of one character.\<close>

definition count_char :: "char \<Rightarrow> string \<Rightarrow> nat" where
  "count_char c s = length (filter (\<lambda>d. d = c) s)"

text \<open>The white space of \<^verbatim>\<open>trim\<close> and of \<^verbatim>\<open>\s\<close>, below 256.\<close>

definition is_space :: "char \<Rightarrow> bool" where
  "is_space c = ((of_char c :: nat) \<in> {9, 10, 11, 12, 13, 32, 160})"

definition trim :: "string \<Rightarrow> string" where
  "trim s = rev (dropWhile is_space (rev (dropWhile is_space s)))"

text \<open>\<^verbatim>\<open>s.split(/\s+/)\<close>, with the piece being read held reversed in \<open>cur\<close>.\<close>

fun split_spaces :: "string \<Rightarrow> string \<Rightarrow> string list" where
  "split_spaces cur [] = [rev cur]"
| "split_spaces cur [c] = (if is_space c then [rev cur, []] else [rev (c # cur)])"
| "split_spaces cur (c # d # cs) =
     (if is_space c
      then (if is_space d then split_spaces cur (d # cs) else rev cur # split_spaces [] (d # cs))
      else split_spaces (c # cur) (d # cs))"

text \<open>\<^verbatim>\<open>kw.split(' ').length\<close>: one more than the number of blanks.\<close>

definition word_count :: "string \<Rightarrow> nat" where
  "word_count kw = Suc (count_char (CHR '' '') kw)"

text \<open>\<^verbatim>\<open>xs.join(sep)\<close>.\<close>

fun join :: "string \<Rightarrow> string list \<Rightarrow> string" where
  "join sep [] = []"
| "join sep [x] = x"
| "join sep (x # y # ys) = x @ sep @ join sep (y # ys)"

section \<open>Signal detection (\<^verbatim>\<open>urgencyScorer.js\<close>)\<close>

definition CRITICAL_KEYWORDS :: "string list" where
  "CRITICAL_KEYWORDS =
    [''down'', ''outage'', ''emergency'', ''urgent'', ''critical'', ''asap'', ''immediately'',
     ''production'', ''security'', ''breach'', ''hack'', ''compromised'', ''data loss'',
     ''cannot access'', ''can't access'', ''locked out'', ''blocked'', ''deadline'',
     ''legal'', ''lawsuit'', ''compliance'', ''audit'', ''executive'', ''ceo'', ''cto'']"

definition SYSTEM_IMPACT_KEYWORDS :: "string list" where
  "SYSTEM_IMPACT_KEYWORDS =
    [''all users'', ''everyone'', ''entire'', ''company-wide'', ''organization'',
     ''multiple'', ''team'', ''department'', ''customers affected'', ''widespread'']"

definition BUSINESS_IMPACT_KEYWORDS :: "string list" where
  "BUSINESS_IMPACT_KEYWORDS =
    [''revenue'', ''money'', ''losing'', ''cost'', ''contract'', ''client'',
     ''demo'', ''presentation'', ''meeting'', ''launch'', ''release'']"

definition POSITIVE_WORDS :: "string list" where
  "POSITIVE_WORDS =
    [''thank'', ''thanks'', ''appreciate'', ''happy'', ''love'', ''great'', ''excellent'',
     ''wonderful'', ''amazing'']"

definition NEGATIVE_WORDS :: "string list" where
  "NEGATIVE_WORDS =
    [''angry'', ''frustrated'', ''furious'', ''terrible'', ''awful'', ''worst'',
     ''unacceptable'', ''ridiculous'']"

record Signals =
  hasCriticalKeyword :: bool
  hasSystemImpact :: bool
  hasBusinessImpact :: bool
  exclamationCount :: nat
  questionCount :: nat
  isAllCaps :: bool
  hasPositiveSentiment :: bool
  hasNegativeSentiment :: bool
  messageLength :: nat
  wordCount :: nat

definition detectSignals :: "string \<Rightarrow> Signals" where
  "detectSignals message =
     (let lowerMessage = toLowerCase message
      in \<lparr> hasCriticalKeyword = some_included CRITICAL_KEYWORDS lowerMessage,
           hasSystemImpact = some_included SYSTEM_IMPACT_KEYWORDS lowerMessage,
           hasBusinessImpact = some_included BUSINESS_IMPACT_KEYWORDS lowerMessage,
           exclamationCount = count_char (CHR ''!'') message,
           questionCount = count_char (CHR ''?'') message,
           isAllCaps = (list_all toUpperCase_keeps message \<and> length message > 10),
           hasPositiveSentiment = some_included POSITIVE_WORDS lowerMessage,
           hasNegativeSentiment = some_included NEGATIVE_WORDS lowerMessage,
           messageLength = length message,
           wordCount = length (split_spaces [] (trim message)) \<rparr>)"

section \<open>Fallback urgency (\<^verbatim>\<open>getFallbackUrgency\<close>)\<close>

text \<open>
  The result objects of the three engines. A field that the AI path copies from the
  decoded reply can hold any value, so such fields are values, not strings or numbers.
\<close>

record UrgencyResult =
  ur_level :: jsval
  ur_score :: jsval
  ur_reasoning :: jsval
  ur_signals :: Signals

text \<open>The running pair \<open>(score, reasons)\<close> of the function body, one step per \<^verbatim>\<open>if\<close>.\<close>

definition bump :: "bool \<Rightarrow> int \<Rightarrow> string \<Rightarrow> int \<times> string list \<Rightarrow> int \<times> string list" where
  "bump cond delta reason st = (if cond then (fst st + delta, snd st @ [reason]) else st)"

definition level_of_score :: "int \<Rightarrow> string" where
  "level_of_score score =
     (if score \<ge> 70 then ''High'' else if score \<ge> 30 then ''Medium'' else ''Low'')"

definition getFallbackUrgency :: "string \<Rightarrow> jsval \<Rightarrow> Signals \<Rightarrow> UrgencyResult" where
  "getFallbackUrgency message category signals =
     (let st = (50, []);
          st = bump (hasCriticalKeyword signals) 35
                 ''Critical keywords detected indicating urgent issue'' st;
          st = bump (hasSystemImpact signals) 20
                 ''Message suggests widespread system impact'' st;
          st = bump (hasBusinessImpact signals) 15
                 ''Potential business or revenue impact mentioned'' st;
          st = bump (hasNegativeSentiment signals) 15
                 ''Customer expressing frustration or dissatisfaction'' st;
          st = (if category = JString ''Technical Problem''
                then bump True 10 ''Technical issues often require timely resolution'' st
                else if category = JString ''Billing Issue''
                then bump True 5 ''Billing concerns can impact customer retention'' st
                else if category = JString ''Feature Request''
                then bump True (- 15) ''Feature requests are typically non-urgent'' st
                else st);
          st = bump (hasPositiveSentiment signals \<and> \<not> hasCriticalKeyword signals
                       \<and> \<not> hasNegativeSentiment signals) (- 20)
                 ''Positive sentiment suggests non-urgent matter'' st;
          st = bump (exclamationCount signals \<ge> 2
                       \<and> (hasNegativeSentiment signals \<or> hasCriticalKeyword signals)) 10
                 ''Emphasis suggests heightened concern'' st;
          st = bump (questionCount signals > 0 \<and> \<not> hasCriticalKeyword signals
                       \<and> \<not> hasNegativeSentiment signals) (- 10)
                 ''Question format suggests inquiry rather than urgent issue'' st;
          score = max 0 (min 100 (fst st));
          reasons = snd st
      in \<lparr> ur_level = JString (level_of_score score),
           ur_score = JNumber (of_int score),
           ur_reasoning = JString (if length reasons > 0
                                   then join ''. '' reasons @ ''.''
                                   else ''Standard priority based on message analysis.''),
           ur_signals = signals \<rparr>)"

section \<open>The built-in \<^verbatim>\<open>JSON.parse\<close>\<close>

text \<open>
  \<^verbatim>\<open>JSON.parse\<close> is part of the JavaScript runtime, not of the repository. It is modelled
  by a recursive-descent reader of the JSON grammar (ECMA-404): objects, arrays, strings
  with their escapes, numbers with fraction and exponent, \<^verbatim>\<open>true\<close>, \<^verbatim>\<open>false\<close>, \<^verbatim>\<open>null\<close>,
  and the four white-space characters. \<open>None\<close> stands for the \<^verbatim>\<open>SyntaxError\<close> it throws.
  A \<^verbatim>\<open>\uXXXX\<close> escape above \<^verbatim>\<open>00FF\<close> names a code unit outside the 8-bit texts of this
  model and is refused.
\<close>

definition is_json_ws :: "char \<Rightarrow> bool" where
  "is_json_ws c = ((of_char c :: nat) \<in> {9, 10, 13, 32})"

definition skip_ws :: "string \<Rightarrow> string" where
  "skip_ws s = dropWhile is_json_ws s"

definition is_digit :: "char \<Rightarrow> bool" where
  "is_digit c = (48 \<le> (of_char c :: nat) \<and> (of_char c :: nat) \<le> 57)"

definition digits_value :: "string \<Rightarrow> nat" where
  "digits_value ds = foldl (\<lambda>acc c. 10 * acc + ((of_char c :: nat) - 48)) 0 ds"

definition hex_value :: "char \<Rightarrow> nat option" where
  "hex_value c =
     (let n = (of_char c :: nat)
      in if 48 \<le> n \<and> n \<le> 57 then Some (n - 48)
         else if 65 \<le> n \<and> n \<le> 70 then Some (n - 55)
         else if 97 \<le> n \<and> n \<le> 102 then Some (n - 87)
         else None)"

definition unescape :: "char \<Rightarrow> char option" where
  "unescape e =
     (if e = CHR 0x22 then Some (CHR 0x22)
      else if e = CHR 0x5C then Some (CHR 0x5C)
      else if e = CHR ''/'' then Some (CHR ''/'')
      else if e = CHR ''b'' then Some (CHR 0x08)
      else if e = CHR ''f'' then Some (CHR 0x0C)
      else if e = CHR ''n'' then Some (CHR 0x0A)
      else if e = CHR ''r'' then Some (CHR 0x0D)
      else if e = CHR ''t'' then Some (CHR 0x09)
      else None)"

text \<open>The characters of a string after its opening quote, collected reversed in \<open>acc\<close>.\<close>

fun parse_string_chars :: "string \<Rightarrow> string \<Rightarrow> (string \<times> string) option" where
  "parse_string_chars acc [] = None"
| "parse_string_chars acc (c # cs) =
     (if c = CHR 0x22 then Some (rev acc, cs)
      else if c = CHR 0x5C then
        (case cs of
           [] \<Rightarrow> None
         | e # r \<Rightarrow>
             if e = CHR ''u'' then
               (case r of
                  h1 # h2 # h3 # h4 # r' \<Rightarrow>
                    (case (hex_value h1, hex_value h2, hex_value h3, hex_value h4) of
                       (Some a, Some b, Some c', Some d) \<Rightarrow>
                         (let n = ((a * 16 + b) * 16 + c') * 16 + d
                          in if n < 256 then parse_string_chars (char_of n # acc) r' else None)
                     | _ \<Rightarrow> None)
                | _ \<Rightarrow> None)
             else (case unescape e of
                     None \<Rightarrow> None
                   | Some ch \<Rightarrow> parse_string_chars (ch # acc) r))
      else if (of_char c :: nat) < 32 then None
      else parse_string_chars (c # acc) cs)"


definition parse_string :: "string \<Rightarrow> (string \<times> string) option" where
  "parse_string s = parse_string_chars [] s"

text \<open>A number is \<^verbatim>\<open>-? (0 | [1-9][0-9]*) (. [0-9]+)? ([eE] [+-]? [0-9]+)?\<close>.\<close>

definition parse_int_part :: "string \<Rightarrow> (nat \<times> string) option" where
  "parse_int_part s =
     (case s of
        [] \<Rightarrow> None
      | c # cs \<Rightarrow>
          if c = CHR ''0'' then Some (0, cs)
          else if is_digit c then Some (digits_value (takeWhile is_digit s), dropWhile is_digit s)
          else None)"

definition parse_frac_part :: "string \<Rightarrow> (rat \<times> string) option" where
  "parse_frac_part s =
     (case s of
        c # cs \<Rightarrow>
          if c = CHR ''.'' then
            (let ds = takeWhile is_digit cs
             in if ds = [] then None
                else Some (of_nat (digits_value ds) / 10 ^ length ds, dropWhile is_digit cs))
          else Some (0, s)
      | [] \<Rightarrow> Some (0, s))"

definition parse_exp_digits :: "bool \<Rightarrow> string \<Rightarrow> (rat \<times> string) option" where
  "parse_exp_digits neg s =
     (let ds = takeWhile is_digit s
      in if ds = [] then None
         else Some (if neg then 1 / 10 ^ digits_value ds else 10 ^ digits_value ds,
                    dropWhile is_digit s))"

definition parse_exp_part :: "string \<Rightarrow> (rat \<times> string) option" where
  "parse_exp_part s =
     (case s of
        c # cs \<Rightarrow>
          if c = CHR ''e'' \<or> c = CHR ''E'' then
            (case cs of
               d # ds \<Rightarrow>
                 if d = CHR ''+'' then parse_exp_digits False ds
                 else if d = CHR ''-'' then parse_exp_digits True ds
                 else parse_exp_digits False cs
             | [] \<Rightarrow> None)
          else Some (1, s)
      | [] \<Rightarrow> Some (1, s))"

definition parse_number :: "string \<Rightarrow> (rat \<times> string) option" where
  "parse_number s =
     (let neg = (case s of c # cs \<Rightarrow> c = CHR ''-'' | [] \<Rightarrow> False);
          s1 = (if neg then tl s else s)
      in case parse_int_part s1 of
           None \<Rightarrow> None
         | Some (i, s2) \<Rightarrow>
             (case parse_frac_part s2 of
                None \<Rightarrow> None
              | Some (f, s3) \<Rightarrow>
                  (case parse_exp_part s3 of
                     None \<Rightarrow> None
                   | Some (e, s4) \<Rightarrow>
                       Some ((if neg then - 1 else 1) * (of_nat i + f) * e, s4))))"

text \<open>
  Values, the elements of an array after its bracket, and the members of an object after
  its brace. Each function returns what it read and the text left over. The comparisons
  of lengths before the recursive calls always succeed, since a value is never read from
  no characters (\<open>parse_elements_unguarded\<close> and \<open>parse_members_unguarded\<close> below);
  they make the termination argument local.
\<close>

function parse_value :: "string \<Rightarrow> (jsval \<times> string) option"
  and parse_elements :: "string \<Rightarrow> (jsval list \<times> string) option"
  and parse_members :: "string \<Rightarrow> ((string \<times> jsval) list \<times> string) option"
where
  "parse_value s =
     (case skip_ws s of
        [] \<Rightarrow> None
      | c # cs \<Rightarrow>
          if c = CHR ''{'' then
            (case skip_ws cs of
               [] \<Rightarrow> None
             | d # ds \<Rightarrow>
                 if d = CHR ''}'' then Some (JObject [], ds)
                 else (case parse_members cs of
                         None \<Rightarrow> None
                       | Some (kvs, rest) \<Rightarrow> Some (JObject kvs, rest)))
          else if c = CHR ''['' then
            (case skip_ws cs of
               [] \<Rightarrow> None
             | d # ds \<Rightarrow>
                 if d = CHR '']'' then Some (JArray [], ds)
                 else (case parse_elements cs of
                         None \<Rightarrow> None
                       | Some (vs, rest) \<Rightarrow> Some (JArray vs, rest)))
          else if c = CHR 0x22 then
            (case parse_string cs of
               None \<Rightarrow> None
             | Some (str, rest) \<Rightarrow> Some (JString str, rest))
          else if starts_with (c # cs) ''true'' then Some (JBool True, drop 4 (c # cs))
          else if starts_with (c # cs) ''false'' then Some (JBool False, drop 5 (c # cs))
          else if starts_with (c # cs) ''null'' then Some (JNull, drop 4 (c # cs))
          else (case parse_number (c # cs) of
                  None \<Rightarrow> None
                | Some (n, rest) \<Rightarrow> Some (JNumber n, rest)))"
| "parse_elements s =
     (case parse_value s of
        None \<Rightarrow> None
      | Some (v, rest) \<Rightarrow>
          (case skip_ws rest of
             [] \<Rightarrow> None
           | c # cs \<Rightarrow>
               if c = CHR '']'' then Some ([v], cs)
               else if c = CHR '','' \<and> length cs < length s then
                 (case parse_elements cs of
                    None \<Rightarrow> None
                  | Some (vs, rest') \<Rightarrow> Some (v # vs, rest'))
               else None))"
| "parse_members s =
     (case skip_ws s of
        [] \<Rightarrow> None
      | q # cs \<Rightarrow>
          if q = CHR 0x22 then
            (case parse_string cs of
               None \<Rightarrow> None
             | Some (key, rest) \<Rightarrow>
                 (case skip_ws rest of
                    [] \<Rightarrow> None
                  | colon # rest1 \<Rightarrow>
                      if colon = CHR '':'' \<and> length rest1 < length s then
                        (case parse_value rest1 of
                           None \<Rightarrow> None
                         | Some (v, rest2) \<Rightarrow>
                             (case skip_ws rest2 of
                                [] \<Rightarrow> None
                              | c # rest3 \<Rightarrow>
                                  if c = CHR ''}'' then Some ([(key, v)], rest3)
                                  else if c = CHR '','' \<and> length rest3 < length s then
                                    (case parse_members rest3 of
                                       None \<Rightarrow> None
                                     | Some (kvs, rest') \<Rightarrow> Some ((key, v) # kvs, rest'))
                                  else None))
                      else None))
          else None)"
  by pat_completeness auto

termination
proof -
  have shorter: "length cs < length s" if "skip_ws s = c # cs" for s c cs
    using that length_dropWhile_le [of is_json_ws s] by (simp add: skip_ws_def)
  show ?thesis
    by (relation "measure (\<lambda>x. case x of
            Inl s \<Rightarrow> 2 * length s
          | Inr (Inl s) \<Rightarrow> 2 * length s + 1
          | Inr (Inr s) \<Rightarrow> 2 * length s + 1)")
       (auto dest: shorter)
qed

definition JSON_parse :: "string \<Rightarrow> jsval option" where
  "JSON_parse s =
     (case parse_value s of
        None \<Rightarrow> None
      | Some (v, rest) \<Rightarrow> if skip_ws rest = [] then Some v else None)"

section \<open>The response decoder (\<^verbatim>\<open>parseJsonResponse\<close>)\<close>

text \<open>
  \<^verbatim>\<open>content.match(/\{[\s\S]*\}/)\<close>: the star is greedy and matches every character, so
  the match runs from the first opening brace to the last closing brace of the text, and
  there is none when no closing brace follows the first opening one.
\<close>

definition match_braces :: "string \<Rightarrow> string option" where
  "match_braces content =
     (let from_open = dropWhile (\<lambda>c. c \<noteq> CHR ''{'') content
      in if from_open = [] then None
         else if CHR ''}'' \<in> set (tl from_open)
         then Some (rev (dropWhile (\<lambda>c. c \<noteq> CHR ''}'') (rev from_open)))
         else None)"

text \<open>The \<^verbatim>\<open>catch\<close> turns the parser's error into \<^verbatim>\<open>null\<close>.\<close>

definition parseJsonResponse :: "string \<Rightarrow> jsval" where
  "parseJsonResponse content =
     (case match_braces content of
        Some jsonMatch \<Rightarrow> (case JSON_parse jsonMatch of Some v \<Rightarrow> v | None \<Rightarrow> JNull)
      | None \<Rightarrow> JNull)"

section \<open>The call client (\<^verbatim>\<open>groqRequest\<close>)\<close>

text \<open>
  An error object as the client reads it: its \<^verbatim>\<open>name\<close>, its \<^verbatim>\<open>status\<close> when it has one,
  its \<^verbatim>\<open>message\<close>. A thrown value is an error object or, for \<^verbatim>\<open>throw lastError\<close> before
  any assignment, \<^verbatim>\<open>undefined\<close> (\<open>None\<close>).
\<close>

record js_error =
  err_name :: string
  err_status :: "nat option"
  err_message :: string

type_synonym thrown = "js_error option"

text \<open>
  What one call of \<^verbatim>\<open>client.chat.completions.create\<close> does: it delivers the text of the
  first choice, or it throws; with the error comes whether the caller's abort signal
  reads as aborted when the error is caught (\<^verbatim>\<open>externalSignal?.aborted\<close>). The remote
  service is a function from the attempt's index to what that attempt does. A response
  whose first choice has no text is outside the model.
\<close>

datatype attempt = Replied string | Failed js_error bool

type_synonym remote = "nat \<Rightarrow> attempt"

definition CONFIG_timeout :: nat where "CONFIG_timeout = 15000"
definition CONFIG_maxRetries :: nat where "CONFIG_maxRetries = 2"
definition CONFIG_retryDelay :: nat where "CONFIG_retryDelay = 1000"
definition CONFIG_retryBackoff :: nat where "CONFIG_retryBackoff = 2"

text \<open>
  The run of one request: what it returns or throws, how many calls it made, and the
  delays it slept between them, in milliseconds and in order.
\<close>

record call_run =
  outcome :: "thrown + string"
  attempts :: nat
  delays :: "nat list"

definition request_cancelled :: js_error where
  "request_cancelled =
     \<lparr> err_name = ''Error'', err_status = None, err_message = ''Request cancelled'' \<rparr>"

function groqRequest_loop :: "remote \<Rightarrow> nat \<Rightarrow> thrown \<Rightarrow> nat list \<Rightarrow> call_run" where
  "groqRequest_loop remote attempt lastError slept =
     (if attempt \<le> CONFIG_maxRetries then
        (case remote attempt of
           Replied content \<Rightarrow>
             \<lparr> outcome = Inr content, attempts = attempt + 1, delays = slept \<rparr>
         | Failed error aborted \<Rightarrow>
             if err_name error = ''AbortError'' \<and> aborted then
               \<lparr> outcome = Inl (Some request_cancelled), attempts = attempt + 1,
                 delays = slept \<rparr>
             else if err_status error = Some 401 \<or> err_status error = Some 403 then
               \<lparr> outcome = Inl (Some error), attempts = attempt + 1, delays = slept \<rparr>
             else if attempt < CONFIG_maxRetries then
               groqRequest_loop remote (attempt + 1) (Some error)
                 (slept @ [CONFIG_retryDelay * CONFIG_retryBackoff ^ attempt])
             else groqRequest_loop remote (attempt + 1) (Some error) slept)
      else \<lparr> outcome = Inl lastError, attempts = attempt, delays = slept \<rparr>)"
  by pat_completeness auto
termination
  by (relation "measure (\<lambda>(remote, attempt, lastError, slept). Suc CONFIG_maxRetries - attempt)")
     auto

definition groqRequest :: "remote \<Rightarrow> call_run" where
  "groqRequest remote = groqRequest_loop remote 0 None []"

section \<open>The categorization engine (\<^verbatim>\<open>llmHelper.js\<close>)\<close>

record CategoryDefinition =
  cd_description :: string
  cd_keywords :: "string list"

text \<open>The object \<^verbatim>\<open>CATEGORY_DEFINITIONS\<close>, its entries in insertion order.\<close>

definition CATEGORY_DEFINITIONS :: "(string \<times> CategoryDefinition) list" where
  "CATEGORY_DEFINITIONS =
    [(''Billing Issue'',
      \<lparr> cd_description = ''Payment problems, charges, refunds, invoices, subscription management, pricing disputes'',
        cd_keywords = [''bill'', ''payment'', ''charge'', ''invoice'', ''refund'', ''subscription'',
                       ''price'', ''cost'', ''fee'', ''credit card'', ''cancel subscription'',
                       ''renewal'', ''discount'', ''promo'', ''coupon''] \<rparr>),
     (''Technical Problem'',
      \<lparr> cd_description = ''Bugs, errors, crashes, outages, performance issues, functionality not working as expected'',
        cd_keywords = [''bug'', ''error'', ''broken'', ''not working'', ''crash'', ''down'', ''slow'',
                       ''loading'', ''freeze'', ''stuck'', ''fail'', ''issue'', ''problem'', ''glitch'',
                       ''unresponsive'', ''timeout'', ''connection''] \<rparr>),
     (''Feature Request'',
      \<lparr> cd_description = ''Suggestions for new features, improvements, enhancements, or changes to existing functionality'',
        cd_keywords = [''feature'', ''add'', ''improve'', ''enhancement'', ''suggestion'', ''wish'',
                       ''would be great'', ''would like'', ''could you add'', ''missing'',
                       ''need ability'', ''roadmap''] \<rparr>),
     (''General Inquiry'',
      \<lparr> cd_description = ''Questions about how things work, pricing information, account questions, general help, positive feedback'',
        cd_keywords = [''how do'', ''how to'', ''what is'', ''where is'', ''can i'', ''is there'',
                       ''help'', ''question'', ''wondering'', ''curious'', ''thank'', ''thanks'',
                       ''great job'', ''love''] \<rparr>)]"

record CategoryResult =
  cr_category :: jsval
  cr_reasoning :: jsval
  cr_confidence :: jsval

definition reasoningTemplates :: "(string \<times> string list) list" where
  "reasoningTemplates =
    [(''Billing Issue'',
      [''This message relates to billing, payments, or subscription management. The customer appears to have a financial or account-related concern that needs to be addressed.'',
       ''The message contains billing-related terminology indicating the customer needs assistance with payments, charges, or their subscription status.'',
       ''Based on the financial context of this message, this is categorized as a billing issue requiring review of the customer's account.'']),
     (''Technical Problem'',
      [''The customer is reporting a technical issue or malfunction. This requires investigation to identify the root cause and provide a resolution.'',
       ''This message describes functionality problems or errors the customer is experiencing. Technical troubleshooting will be needed.'',
       ''Based on the error or malfunction described, this is a technical support issue that may require engineering review.'']),
     (''Feature Request'',
      [''The customer is suggesting an improvement or new capability. This feedback should be logged for product team review.'',
       ''This message contains a feature suggestion or enhancement request. The customer is providing valuable product feedback.'',
       ''The customer is requesting functionality that doesn't currently exist. This should be tracked as product feedback.'']),
     (''General Inquiry'',
      [''This appears to be a general question or informational request. The customer is seeking clarification or assistance.'',
       ''The message is a general inquiry that can likely be addressed with documentation or standard support responses.'',
       ''This is a general support request or positive feedback that doesn't fall into a specific issue category.''])]"

text \<open>
  \<^verbatim>\<open>generateFallbackReasoning\<close>. The draw \<^verbatim>\<open>Math.floor(Math.random() * templates.length)\<close>
  is the parameter \<open>pick\<close>; reading an array beyond its end gives undefined.
\<close>

definition generateFallbackReasoning :: "nat \<Rightarrow> string \<Rightarrow> jsval" where
  "generateFallbackReasoning pick category =
     (let templates = (case map_of reasoningTemplates category of
                         Some ts \<Rightarrow> ts
                       | None \<Rightarrow> (case map_of reasoningTemplates ''General Inquiry'' of
                                     Some ts \<Rightarrow> ts | None \<Rightarrow> []))
      in if pick < length templates then JString (templates ! pick) else JUndefined)"

text \<open>The first loop: one score per category, in the order of the entries.\<close>

definition keyword_score :: "string \<Rightarrow> string list \<Rightarrow> nat" where
  "keyword_score lowerMessage kws =
     foldl (\<lambda>score keyword.
              if str_includes lowerMessage keyword then score + word_count keyword else score)
       0 kws"

definition initial_scores :: "string \<Rightarrow> (string \<times> nat) list" where
  "initial_scores lowerMessage =
     map (\<lambda>(category, def). (category, keyword_score lowerMessage (cd_keywords def)))
       CATEGORY_DEFINITIONS"

text \<open>\<^verbatim>\<open>scores[k]\<close>; every key read is one of the four that the first loop has written.\<close>

definition score_at :: "(string \<times> nat) list \<Rightarrow> string \<Rightarrow> nat" where
  "score_at scores k = (case map_of scores k of Some n \<Rightarrow> n | None \<Rightarrow> 0)"

definition adjusted_scores :: "string \<Rightarrow> (string \<times> nat) list" where
  "adjusted_scores lowerMessage =
     (let scores = initial_scores lowerMessage
      in if score_at scores ''Technical Problem'' > 0 \<and> score_at scores ''Billing Issue'' > 0
         then (if str_includes lowerMessage ''payment''
                  \<and> (str_includes lowerMessage ''fail'' \<or> str_includes lowerMessage ''error'')
               then map (\<lambda>(category, score).
                           if category = ''Billing Issue'' then (category, score + 2)
                           else (category, score)) scores
               else scores)
         else scores)"

text \<open>The second loop: the running pair \<open>(bestCategory, bestScore)\<close>.\<close>

definition best_step :: "string \<times> nat \<Rightarrow> string \<times> nat \<Rightarrow> string \<times> nat" where
  "best_step best entry = (if snd entry > snd best then entry else best)"

definition find_best :: "(string \<times> nat) list \<Rightarrow> string \<times> nat" where
  "find_best scores = foldl best_step (''General Inquiry'', 0) scores"

definition getFallbackCategorization :: "nat \<Rightarrow> string \<Rightarrow> CategoryResult" where
  "getFallbackCategorization pick message =
     (let lowerMessage = toLowerCase message;
          scores = adjusted_scores lowerMessage;
          (bestCategory, bestScore) = find_best scores;
          reasoning = generateFallbackReasoning pick bestCategory
      in \<lparr> cr_category = JString bestCategory,
           cr_reasoning = reasoning,
           cr_confidence = JNumber (if bestScore > 2 then 8 / 10
                                    else if bestScore > 0 then 6 / 10 else 4 / 10) \<rparr>)"

definition extractCategoryFromProse :: "nat \<Rightarrow> string \<Rightarrow> string \<Rightarrow> CategoryResult" where
  "extractCategoryFromProse pick content originalMessage =
     (let lowerContent = toLowerCase content
      in case find (\<lambda>category. str_includes lowerContent (toLowerCase category))
                (map fst CATEGORY_DEFINITIONS) of
           Some category \<Rightarrow>
             \<lparr> cr_category = JString category,
               cr_reasoning = JString content,
               cr_confidence = JNumber (7 / 10) \<rparr>
         | None \<Rightarrow> getFallbackCategorization pick originalMessage)"

text \<open>
  \<^verbatim>\<open>categorizeMessage\<close>. An \<^verbatim>\<open>async\<close> function returns or throws; its \<^verbatim>\<open>catch\<close> takes every
  thrown value, whatever it is.
\<close>

definition categorizeMessage :: "remote \<Rightarrow> nat \<Rightarrow> string \<Rightarrow> thrown + CategoryResult" where
  "categorizeMessage remote pick message =
     (case outcome (groqRequest remote) of
        Inr content \<Rightarrow>
          (let parsed = parseJsonResponse content
           in if truthy parsed then
                (let validCategories = map fst CATEGORY_DEFINITIONS;
                     category = (if get_prop parsed ''category'' \<in> set (map JString validCategories)
                                 then get_prop parsed ''category'' else JString ''Unknown'')
                 in Inr \<lparr> cr_category = category,
                          cr_reasoning = js_or (get_prop parsed ''reasoning'') (JString content),
                          cr_confidence = js_or (get_prop parsed ''confidence'') (JNumber (8 / 10)) \<rparr>)
              else Inr (extractCategoryFromProse pick content message))
      | Inl error \<Rightarrow> Inr (getFallbackCategorization pick message))"

section \<open>The urgency engine (\<^verbatim>\<open>calculateUrgency\<close>)\<close>

definition calculateUrgency :: "remote \<Rightarrow> string \<Rightarrow> jsval \<Rightarrow> thrown + UrgencyResult" where
  "calculateUrgency remote message category =
     (let signals = detectSignals message
      in case outcome (groqRequest remote) of
           Inr content \<Rightarrow>
             (let parsed = parseJsonResponse content
              in if truthy parsed then
                   Inr \<lparr> ur_level = js_or (get_prop parsed ''level'') (JString ''Medium''),
                         ur_score = js_or (get_prop parsed ''score'') (JNumber 50),
                         ur_reasoning = js_or (get_prop parsed ''reasoning'')
                                          (JString ''Unable to determine detailed reasoning.''),
                         ur_signals = signals \<rparr>
                 else Inr (getFallbackUrgency message category signals))
         | Inl error \<Rightarrow> Inr (getFallbackUrgency message category signals))"

section \<open>The action engine (\<^verbatim>\<open>templates.js\<close>)\<close>

record ActionResult =
  ar_action :: jsval
  ar_escalate :: jsval
  ar_escalateReason :: jsval

record Trigger =
  tg_keywords :: "string list"
  tg_reason :: string

definition escalationTriggers :: "Trigger list" where
  "escalationTriggers =
    [\<lparr> tg_keywords = [''security'', ''breach'', ''hack'', ''compromised''],
       tg_reason = ''Security concern requires immediate escalation to security team'' \<rparr>,
     \<lparr> tg_keywords = [''legal'', ''lawyer'', ''lawsuit'', ''sue''],
       tg_reason = ''Legal mention requires escalation to legal/compliance team'' \<rparr>,
     \<lparr> tg_keywords = [''cancel'', ''leaving'', ''competitor''],
       tg_reason = ''Churn risk - escalate to retention team'' \<rparr>,
     \<lparr> tg_keywords = [''ceo'', ''cto'', ''executive'', ''vip''],
       tg_reason = ''Executive/VIP customer requires priority handling'' \<rparr>,
     \<lparr> tg_keywords = [''all users'', ''everyone'', ''company-wide'', ''outage''],
       tg_reason = ''System-wide issue affecting multiple users'' \<rparr>]"

text \<open>
  The loop over the triggers with its \<^verbatim>\<open>break\<close>: the pair \<open>(escalate, escalateReason)\<close>
  after it, starting from \<open>(false, null)\<close>.
\<close>

fun scan_triggers :: "string \<Rightarrow> Trigger list \<Rightarrow> bool \<times> jsval" where
  "scan_triggers lowerMessage [] = (False, JNull)"
| "scan_triggers lowerMessage (trigger # rest) =
     (if some_included (tg_keywords trigger) lowerMessage
      then (True, JString (tg_reason trigger))
      else scan_triggers lowerMessage rest)"

text \<open>The \<^verbatim>\<open>switch\<close> on the category.\<close>

definition category_action :: "string \<Rightarrow> jsval \<Rightarrow> string" where
  "category_action lowerMessage category =
     (if category = JString ''Billing Issue'' then
        (if str_includes lowerMessage ''refund'' then
           ''Review the customer's billing history and recent transactions. If refund is warranted per company policy, process it and confirm with the customer. Document the reason for the refund.''
         else if str_includes lowerMessage ''charge'' \<or> str_includes lowerMessage ''charged'' then
           ''Pull up the customer's account to review recent charges. Explain each charge clearly, and if there's an error, initiate a correction. Provide an itemized breakdown if requested.''
         else if str_includes lowerMessage ''cancel'' then
           ''Understand the reason for cancellation. Offer retention options if available (discount, plan change, pause). If proceeding with cancellation, explain the process and any final billing.''
         else
           ''Access the customer's billing portal to review their account status, recent invoices, and payment history. Address the specific concern and offer to walk them through any unclear charges.'')
      else if category = JString ''Technical Problem'' then
        (if str_includes lowerMessage ''login'' \<or> str_includes lowerMessage ''password''
            \<or> str_includes lowerMessage ''access'' then
           ''Verify the customer's identity, then check their account status for locks or flags. If locked out, initiate password reset or account recovery. Check for any system-wide authentication issues.''
         else if str_includes lowerMessage ''slow'' \<or> str_includes lowerMessage ''performance'' then
           ''Check system status page for known performance issues. Gather specifics: browser, device, network. If isolated issue, guide through cache clearing and basic troubleshooting. If widespread, escalate to engineering.''
         else if str_includes lowerMessage ''error'' \<or> str_includes lowerMessage ''bug'' then
           ''Request error details (screenshot, error code, steps to reproduce). Check known issues database. If new issue, document thoroughly and create a bug report for engineering team.''
         else if str_includes lowerMessage ''down'' \<or> str_includes lowerMessage ''not working'' then
           ''Immediately check system status and recent incident reports. If confirmed outage, provide status update and ETA if available. If user-specific, gather diagnostic information and troubleshoot.''
         else
           ''Gather specific details about the issue: what they were trying to do, what happened, any error messages. Check for known issues, then provide targeted troubleshooting steps.'')
      else if category = JString ''Feature Request'' then
        ''Thank the customer for their feedback. Log the feature request in the product feedback system with full context. If similar features exist, explain current capabilities. Share the product roadmap link if public.''
        @ (if str_includes lowerMessage ''urgent'' \<or> str_includes lowerMessage ''need'' then
             '' Since this seems important for their workflow, check if there's a workaround or integration that could help in the meantime.''
           else [])
      else if category = JString ''General Inquiry'' then
        (if str_includes lowerMessage ''pricing'' \<or> str_includes lowerMessage ''cost''
            \<or> str_includes lowerMessage ''plan'' then
           ''Direct the customer to the pricing page and highlight plans that match their described needs. Offer to schedule a call with sales for custom requirements or volume discounts.''
         else if str_includes lowerMessage ''how'' \<or> str_includes lowerMessage ''tutorial'' then
           ''Provide a direct link to the relevant help article or documentation. Offer to walk them through the process if documentation isn't sufficient. Consider if this gap indicates need for better docs.''
         else
           ''Review available documentation and FAQ to provide a comprehensive answer. If the question reveals a gap in self-service resources, flag it for documentation improvement.'')
      else
        ''Review the message carefully to understand the customer's core need. Categorize appropriately if miscategorized, or gather more information if the request is unclear.'')"

definition getFallbackRecommendation :: "string \<Rightarrow> jsval \<Rightarrow> jsval \<Rightarrow> ActionResult" where
  "getFallbackRecommendation message category urgency =
     (let lowerMessage = toLowerCase message;
          (escalate, escalateReason) = scan_triggers lowerMessage escalationTriggers;
          (escalate, escalateReason) =
            (if urgency = JString ''High'' \<and> \<not> escalate
             then (True, JString ''High urgency issue requires immediate supervisor attention'')
             else (escalate, escalateReason));
          action = category_action lowerMessage category
      in \<lparr> ar_action = JString action,
           ar_escalate = JBool escalate,
           ar_escalateReason = escalateReason \<rparr>)"

definition getRecommendedAction ::
  "remote \<Rightarrow> string \<Rightarrow> jsval \<Rightarrow> jsval \<Rightarrow> thrown + ActionResult" where
  "getRecommendedAction remote message category urgency =
     (case outcome (groqRequest remote) of
        Inr content \<Rightarrow>
          (let parsed = parseJsonResponse content
           in if truthy parsed then
                Inr \<lparr> ar_action = js_or (get_prop parsed ''action'')
                                     (JString ''Review the message and respond appropriately.''),
                      ar_escalate = js_or (get_prop parsed ''escalate'') (JBool False),
                      ar_escalateReason = js_or (get_prop parsed ''escalateReason'') JNull \<rparr>
              else Inr (getFallbackRecommendation message category urgency))
      | Inl error \<Rightarrow> Inr (getFallbackRecommendation message category urgency))"

text \<open>\<^verbatim>\<open>shouldEscalate\<close>, kept for callers of the older interface.\<close>

definition shouldEscalate :: "jsval \<Rightarrow> jsval \<Rightarrow> string \<Rightarrow> jsval" where
  "shouldEscalate category urgency message =
     ar_escalate (getFallbackRecommendation message category urgency)"

section \<open>The orchestrator (\<^verbatim>\<open>handleAnalyze\<close> in \<^verbatim>\<open>AnalyzePage.jsx\<close>)\<close>

record analysisResult =
  tr_message :: string
  tr_category :: jsval
  tr_urgency :: jsval
  tr_urgencyScore :: jsval
  tr_urgencyReasoning :: jsval
  tr_recommendedAction :: jsval
  tr_escalate :: jsval
  tr_escalateReason :: jsval
  tr_reasoning :: jsval
  tr_timestamp :: string

text \<open>
  What \<^verbatim>\<open>handleAnalyze\<close> reads and writes: the displayed \<^verbatim>\<open>results\<close>, the list stored under
  \<^verbatim>\<open>triageHistory\<close>, and the texts it has sent to \<^verbatim>\<open>alert\<close> and to the console. The loading
  flags and the abort controller's reference are display state and are left out.
\<close>

record page =
  results :: "analysisResult option"
  triageHistory :: "analysisResult list"
  alerts :: "string list"
  console :: "string list"

text \<open>The \<^verbatim>\<open>catch\<close> block. Reading \<^verbatim>\<open>.message\<close> of undefined throws again and writes nothing.\<close>

definition on_error :: "thrown \<Rightarrow> page \<Rightarrow> page" where
  "on_error error st =
     (case error of
        None \<Rightarrow> st
      | Some e \<Rightarrow>
          if err_message e = ''Request cancelled''
          then st\<lparr> console := console st @ [''Analysis cancelled by user''] \<rparr>
          else st\<lparr> console := console st @ [''Error analyzing message:''],
                   alerts := alerts st @ [''Error analyzing message. Please try again.''] \<rparr>)"

text \<open>
  One run of \<^verbatim>\<open>handleAnalyze\<close>: a remote service for each of the three stages, the draw
  of the fallback template, the clock's text \<open>now\<close>, and the page before the run.
\<close>

definition handleAnalyze ::
  "remote \<Rightarrow> remote \<Rightarrow> remote \<Rightarrow> nat \<Rightarrow> string \<Rightarrow> string \<Rightarrow> page \<Rightarrow> page" where
  "handleAnalyze remoteC remoteU remoteA pick now message st0 =
     (if trim message = [] then
        st0\<lparr> alerts := alerts st0 @ [''Please enter a message to analyze''] \<rparr>
      else
        (let st = st0\<lparr> results := None \<rparr>
         in case categorizeMessage remoteC pick message of
              Inl error \<Rightarrow> on_error error st
            | Inr categoryResult \<Rightarrow>
                (case calculateUrgency remoteU message JNull of
                   Inl error \<Rightarrow> on_error error st
                 | Inr urgencyResult \<Rightarrow>
                     (case getRecommendedAction remoteA message (cr_category categoryResult)
                             (ur_level urgencyResult) of
                        Inl error \<Rightarrow> on_error error st
                      | Inr actionResult \<Rightarrow>
                          (let analysisResult =
                                 \<lparr> tr_message = message,
                                   tr_category = cr_category categoryResult,
                                   tr_urgency = ur_level urgencyResult,
                                   tr_urgencyScore = ur_score urgencyResult,
                                   tr_urgencyReasoning = ur_reasoning urgencyResult,
                                   tr_recommendedAction = ar_action actionResult,
                                   tr_escalate = ar_escalate actionResult,
                                   tr_escalateReason = ar_escalateReason actionResult,
                                   tr_reasoning = cr_reasoning categoryResult,
                                   tr_timestamp = now \<rparr>
                           in st\<lparr> results := Some analysisResult,
                                  triageHistory := triageHistory st @ [analysisResult] \<rparr>)))))"

section \<open>The vocabulary of the specification\<close>

text \<open>
  The urgency adjustments as the specification lists them: whether the adjustment
  applies, its amount, and the reason it records.
\<close>

definition urgency_adjustments :: "jsval \<Rightarrow> Signals \<Rightarrow> (bool \<times> int \<times> string) list" where
  "urgency_adjustments category signals =
    [(hasCriticalKeyword signals, 35, ''Critical keywords detected indicating urgent issue''),
     (hasSystemImpact signals, 20, ''Message suggests widespread system impact''),
     (hasBusinessImpact signals, 15, ''Potential business or revenue impact mentioned''),
     (hasNegativeSentiment signals, 15, ''Customer expressing frustration or dissatisfaction''),
     (category = JString ''Technical Problem'', 10,
        ''Technical issues often require timely resolution''),
     (category = JString ''Billing Issue'', 5,
        ''Billing concerns can impact customer retention''),
     (category = JString ''Feature Request'', - 15,
        ''Feature requests are typically non-urgent''),
     (hasPositiveSentiment signals \<and> \<not> hasCriticalKeyword signals
        \<and> \<not> hasNegativeSentiment signals, - 20,
        ''Positive sentiment suggests non-urgent matter''),
     (exclamationCount signals \<ge> 2
        \<and> (hasNegativeSentiment signals \<or> hasCriticalKeyword signals), 10,
        ''Emphasis suggests heightened concern''),
     (questionCount signals > 0 \<and> \<not> hasCriticalKeyword signals
        \<and> \<not> hasNegativeSentiment signals, - 10,
        ''Question format suggests inquiry rather than urgent issue'')]"

definition applied :: "(bool \<times> int \<times> string) list \<Rightarrow> (int \<times> string) list" where
  "applied adjs = map snd (filter fst adjs)"

text \<open>
  The error classes of the call client. A cancellation is an abort error caught while the
  caller's signal reads as aborted; an authentication failure carries status 401 or 403;
  every other failure (a timeout, a transport error) is retried.
\<close>

definition is_cancellation :: "js_error \<Rightarrow> bool \<Rightarrow> bool" where
  "is_cancellation error aborted = (err_name error = ''AbortError'' \<and> aborted)"

definition is_auth_failure :: "js_error \<Rightarrow> bool" where
  "is_auth_failure error = (err_status error = Some 401 \<or> err_status error = Some 403)"

definition retryable :: "js_error \<Rightarrow> bool \<Rightarrow> bool" where
  "retryable error aborted = (\<not> is_cancellation error aborted \<and> \<not> is_auth_failure error)"

text \<open>
  Remote services for the scenarios: one that answers every call with the same text, one
  that fails every call in the same way; and two errors, the abort error thrown when a
  request is aborted (by the client's own timer, or by the caller's signal) and a
  rejected key.
\<close>

definition always_replies :: "string \<Rightarrow> remote" where
  "always_replies content = (\<lambda>attempt. Replied content)"

definition always_fails :: "js_error \<Rightarrow> bool \<Rightarrow> remote" where
  "always_fails error aborted = (\<lambda>attempt. Failed error aborted)"

definition abort_error :: js_error where
  "abort_error = \<lparr> err_name = ''AbortError'', err_status = None, err_message = ''Request was aborted.'' \<rparr>"

definition auth_error :: js_error where
  "auth_error = \<lparr> err_name = ''AuthenticationError'', err_status = Some 401, err_message = ''Invalid API Key'' \<rparr>"

text \<open>The fallback score as the specification computes it: the clamped sum.\<close>

definition fallback_score :: "jsval \<Rightarrow> Signals \<Rightarrow> int" where
  "fallback_score category signals =
     max 0 (min 100 (50 + sum_list (map fst (applied (urgency_adjustments category signals)))))"

text \<open>
  The fixed set of category names, and whether a reply names a category: the name
  occurs in the reply, letter case apart.
\<close>

definition fixed_categories :: "string list" where
  "fixed_categories = map fst CATEGORY_DEFINITIONS"

definition names_category :: "string \<Rightarrow> string \<Rightarrow> bool" where
  "names_category content category =
     str_includes (toLowerCase content) (toLowerCase category)"

text \<open>Replies of the remote service used in the scenarios.\<close>

definition reply_low_90 :: string where
  \<open>reply_low_90 = ''{"level": "Low", "score": 90}''\<close>

definition reply_score_zero :: string where
  \<open>reply_score_zero = ''{"level": "", "score": 0, "reasoning": "No urgency at all."}''\<close>

definition reply_lowercase_category :: string where
  \<open>reply_lowercase_category = ''{"category": "billing issue"}''\<close>

definition reply_prose :: string where
  "reply_prose = ''This looks like a technical problem, not a billing issue.''"

definition reply_ok :: string where
  \<open>reply_ok = ''{"ok": true}''\<close>

text \<open>
  The score of a category as the specification computes it: the words of every keyword
  of the category that occurs in the lower-cased message, and 2 more for Billing Issue
  when the message has "payment" together with "fail" or "error".
\<close>

definition keywords_of :: "string \<Rightarrow> string list" where
  "keywords_of category =
     (case map_of CATEGORY_DEFINITIONS category of Some def \<Rightarrow> cd_keywords def | None \<Rightarrow> [])"

definition payment_failure :: "string \<Rightarrow> bool" where
  "payment_failure lowerMessage =
     (str_includes lowerMessage ''payment''
      \<and> (str_includes lowerMessage ''fail'' \<or> str_includes lowerMessage ''error''))"

definition spec_score :: "string \<Rightarrow> string \<Rightarrow> nat" where
  "spec_score message category =
     (let lowerMessage = toLowerCase message
      in sum_list (map word_count (filter (str_includes lowerMessage) (keywords_of category)))
         + (if category = ''Billing Issue'' \<and> payment_failure lowerMessage then 2 else 0))"

text \<open>Whether a message, letter case apart, holds a keyword of an escalation group.\<close>

definition trigger_matches :: "string \<Rightarrow> Trigger \<Rightarrow> bool" where
  "trigger_matches message trigger = some_included (tg_keywords trigger) (toLowerCase message)"

text \<open>Messages used in the scenarios.\<close>

definition message_outage :: string where
  "message_outage = ''The server is DOWN!! This is unacceptable''"

definition message_security_vip :: string where
  "message_security_vip = ''Our CEO says there was a security breach''"

definition message_payment_failed :: string where
  "message_payment_failed = ''My payment failed with an error''"

definition message_dark_mode :: string where
  "message_dark_mode = ''Can you add a dark mode feature?''"

text \<open>
  A remote service is unavailable when each of its calls fails and none of the failures
  is a cancellation.
\<close>

definition unavailable :: "remote \<Rightarrow> bool" where
  "unavailable remote = (\<forall>i. \<exists>e a. remote i = Failed e a \<and> \<not> is_cancellation e a)"

text \<open>The page before any analysis.\<close>

definition initial_page :: page where
  "initial_page = \<lparr> results = None, triageHistory = [], alerts = [], console = [] \<rparr>"

text \<open>The record that \<^verbatim>\<open>handleAnalyze\<close> assembles when all three engines fall back.\<close>

definition fallback_record :: "nat \<Rightarrow> string \<Rightarrow> string \<Rightarrow> analysisResult" where
  "fallback_record pick now message =
     (let categoryResult = getFallbackCategorization pick message;
          urgencyResult = getFallbackUrgency message JNull (detectSignals message);
          actionResult = getFallbackRecommendation message (cr_category categoryResult)
                           (ur_level urgencyResult)
      in \<lparr> tr_message = message,
           tr_category = cr_category categoryResult,
           tr_urgency = ur_level urgencyResult,
           tr_urgencyScore = ur_score urgencyResult,
           tr_urgencyReasoning = ur_reasoning urgencyResult,
           tr_recommendedAction = ar_action actionResult,
           tr_escalate = ar_escalate actionResult,
           tr_escalateReason = ar_escalateReason actionResult,
           tr_reasoning = cr_reasoning categoryResult,
           tr_timestamp = now \<rparr>)"

text \<open>A text inside a markdown code fence.\<close>

definition fenced :: "string \<Rightarrow> string" where
  "fenced s = ''```json'' @ [CHR 0x0A] @ s @ [CHR 0x0A] @ ''```''"

section \<open>Properties of the call client\<close>

lemma groqRequest_reply_first:
  "remote 0 = Replied content \<Longrightarrow> groqRequest remote = \<lparr> outcome = Inr content, attempts = 1, delays = [] \<rparr>"
  unfolding groqRequest_def
  by (subst groqRequest_loop.simps) (simp add: CONFIG_maxRetries_def)

lemma groqRequest_always_replies:
  "groqRequest (always_replies content) = \<lparr> outcome = Inr content, attempts = 1, delays = [] \<rparr>"
  by (rule groqRequest_reply_first) (simp add: always_replies_def)

lemma loop_exhausted:
  "groqRequest_loop remote 3 lastError slept = \<lparr> outcome = Inl lastError, attempts = 3, delays = slept \<rparr>"
  by (subst groqRequest_loop.simps) (simp add: CONFIG_maxRetries_def)

lemma loop_retry:
  assumes "remote attempt = Failed error aborted" "retryable error aborted" "attempt < 2"
  shows "groqRequest_loop remote attempt lastError slept =
           groqRequest_loop remote (Suc attempt) (Some error) (slept @ [1000 * 2 ^ attempt])"
  using assms
  by (auto simp add: groqRequest_loop.simps [of remote attempt lastError slept]
        CONFIG_maxRetries_def CONFIG_retryDelay_def CONFIG_retryBackoff_def
        retryable_def is_cancellation_def is_auth_failure_def)

lemma loop_last_retry:
  assumes "remote 2 = Failed error aborted" "retryable error aborted"
  shows "groqRequest_loop remote 2 lastError slept =
           \<lparr> outcome = Inl (Some error), attempts = 3, delays = slept \<rparr>"
  using assms
  by (auto simp add: groqRequest_loop.simps [of remote 2 lastError slept]
        CONFIG_maxRetries_def retryable_def is_cancellation_def is_auth_failure_def
        loop_exhausted)

lemma loop_auth_failure:
  assumes "remote attempt = Failed error aborted" "\<not> is_cancellation error aborted"
    "is_auth_failure error" "attempt \<le> 2"
  shows "groqRequest_loop remote attempt lastError slept =
           \<lparr> outcome = Inl (Some error), attempts = Suc attempt, delays = slept \<rparr>"
  using assms
  by (auto simp add: groqRequest_loop.simps [of remote attempt lastError slept]
        CONFIG_maxRetries_def is_cancellation_def is_auth_failure_def)

lemma loop_cancelled:
  assumes "remote attempt = Failed error aborted" "is_cancellation error aborted" "attempt \<le> 2"
  shows "groqRequest_loop remote attempt lastError slept =
           \<lparr> outcome = Inl (Some request_cancelled), attempts = Suc attempt, delays = slept \<rparr>"
  using assms
  by (auto simp add: groqRequest_loop.simps [of remote attempt lastError slept]
        CONFIG_maxRetries_def is_cancellation_def)

lemma three_retryable_failures:
  assumes "remote 0 = Failed e0 a0" "retryable e0 a0"
    and "remote 1 = Failed e1 a1" "retryable e1 a1"
    and "remote 2 = Failed e2 a2" "retryable e2 a2"
  shows "groqRequest remote = \<lparr> outcome = Inl (Some e2), attempts = 3, delays = [1000, 2000] \<rparr>"
proof -
  have "groqRequest remote = groqRequest_loop remote (Suc 0) (Some e0) [1000]"
    unfolding groqRequest_def using assms(1,2) loop_retry [of remote 0 e0 a0 None "[]"] by simp
  also have "\<dots> = groqRequest_loop remote 2 (Some e1) [1000, 2000]"
    using assms(3,4) loop_retry [of remote 1 e1 a1 "Some e0" "[1000]"]
    by (simp add: numeral_2_eq_2)
  also have "\<dots> = \<lparr> outcome = Inl (Some e2), attempts = 3, delays = [1000, 2000] \<rparr>"
    using assms(5,6) loop_last_retry [of remote e2 a2] by simp
  finally show ?thesis .
qed

lemma retryable_abort_error: "retryable abort_error False"
  by (simp add: retryable_def is_cancellation_def is_auth_failure_def abort_error_def)

lemma groqRequest_always_fails_abort:
  "groqRequest (always_fails abort_error False)
     = \<lparr> outcome = Inl (Some abort_error), attempts = 3, delays = [1000, 2000] \<rparr>"
proof -
  have f: "always_fails abort_error False i = Failed abort_error False" for i
    by (simp add: always_fails_def)
  show ?thesis
    by (rule three_retryable_failures [OF f retryable_abort_error f retryable_abort_error
               f retryable_abort_error])
qed

text \<open>
  Claim C3. When the three attempts of a request all fail with a retryable error, the
  client makes exactly three calls, sleeps 1000 ms and then 2000 ms between them (one
  second, then two: the delays do not decrease), and throws the error of the last attempt
  as it is. When the first attempt fails with an authentication failure (status 401 or
  403), the client makes exactly one call and throws that error at once.
\<close>

theorem retry_three_attempts:
  "(remote 0 = Failed e0 a0 \<and> retryable e0 a0 \<and>
    remote 1 = Failed e1 a1 \<and> retryable e1 a1 \<and>
    remote 2 = Failed e2 a2 \<and> retryable e2 a2
      \<longrightarrow> groqRequest remote = \<lparr> outcome = Inl (Some e2), attempts = 3, delays = [1000, 2000] \<rparr>)
   \<and> (remote 0 = Failed e0 a0 \<and> \<not> is_cancellation e0 a0 \<and> is_auth_failure e0
      \<longrightarrow> groqRequest remote = \<lparr> outcome = Inl (Some e0), attempts = 1, delays = [] \<rparr>)"
proof (intro conjI impI)
  assume "remote 0 = Failed e0 a0 \<and> retryable e0 a0 \<and>
    remote 1 = Failed e1 a1 \<and> retryable e1 a1 \<and>
    remote 2 = Failed e2 a2 \<and> retryable e2 a2"
  then show "groqRequest remote
               = \<lparr> outcome = Inl (Some e2), attempts = 3, delays = [1000, 2000] \<rparr>"
    using three_retryable_failures [of remote e0 a0 e1 a1 e2 a2] by blast
next
  assume h: "remote 0 = Failed e0 a0 \<and> \<not> is_cancellation e0 a0 \<and> is_auth_failure e0"
  show "groqRequest remote = \<lparr> outcome = Inl (Some e0), attempts = 1, delays = [] \<rparr>"
    unfolding groqRequest_def using h loop_auth_failure [of remote 0 e0 a0 None "[]"] by simp
qed

theorem retry_three_attempts_witness:
  "groqRequest (always_fails abort_error False)
     = \<lparr> outcome = Inl (Some abort_error), attempts = 3, delays = [1000, 2000] \<rparr>
   \<and> groqRequest (always_fails auth_error False)
     = \<lparr> outcome = Inl (Some auth_error), attempts = 1, delays = [] \<rparr>"
  using retry_three_attempts [of "always_fails abort_error False" abort_error False
          abort_error False abort_error False]
        retry_three_attempts [of "always_fails auth_error False" auth_error False
          auth_error False auth_error False]
  by (simp add: always_fails_def retryable_def is_cancellation_def is_auth_failure_def
        abort_error_def auth_error_def)

section \<open>Properties of the fallback urgency\<close>

lemma bump_False: "bump False d r st = st"
  by (simp add: bump_def)

lemma foldl_bump:
  "foldl (\<lambda>st (c, d, r). bump c d r st) (s0, rs0) adjs =
     (s0 + sum_list (map fst (applied adjs)), rs0 @ map snd (applied adjs))"
  by (induction adjs arbitrary: s0 rs0) (auto simp: applied_def bump_def)

lemma fallback_state:
  "(let st = (50, []);
          st = bump (hasCriticalKeyword signals) 35
                 ''Critical keywords detected indicating urgent issue'' st;
          st = bump (hasSystemImpact signals) 20
                 ''Message suggests widespread system impact'' st;
          st = bump (hasBusinessImpact signals) 15
                 ''Potential business or revenue impact mentioned'' st;
          st = bump (hasNegativeSentiment signals) 15
                 ''Customer expressing frustration or dissatisfaction'' st;
          st = (if category = JString ''Technical Problem''
                then bump True 10 ''Technical issues often require timely resolution'' st
                else if category = JString ''Billing Issue''
                then bump True 5 ''Billing concerns can impact customer retention'' st
                else if category = JString ''Feature Request''
                then bump True (- 15) ''Feature requests are typically non-urgent'' st
                else st);
          st = bump (hasPositiveSentiment signals \<and> \<not> hasCriticalKeyword signals
                       \<and> \<not> hasNegativeSentiment signals) (- 20)
                 ''Positive sentiment suggests non-urgent matter'' st;
          st = bump (exclamationCount signals \<ge> 2
                       \<and> (hasNegativeSentiment signals \<or> hasCriticalKeyword signals)) 10
                 ''Emphasis suggests heightened concern'' st;
          st = bump (questionCount signals > 0 \<and> \<not> hasCriticalKeyword signals
                       \<and> \<not> hasNegativeSentiment signals) (- 10)
                 ''Question format suggests inquiry rather than urgent issue'' st
     in f st) = f (foldl (\<lambda>st (c, d, r). bump c d r st) (50, []) (urgency_adjustments category signals))"
proof -
  consider (T) "category = JString ''Technical Problem''"
    | (B) "category = JString ''Billing Issue''"
    | (F) "category = JString ''Feature Request''"
    | (O) "category \<noteq> JString ''Technical Problem''" "category \<noteq> JString ''Billing Issue''"
          "category \<noteq> JString ''Feature Request''"
    by blast
  then show ?thesis
  proof cases
    case T then show ?thesis by (simp add: urgency_adjustments_def bump_False del: foldl_Cons) (simp add: bump_False)
  next
    case B then show ?thesis by (simp add: urgency_adjustments_def bump_False)
  next
    case F then show ?thesis by (simp add: urgency_adjustments_def bump_False)
  next
    case O then show ?thesis by (simp add: urgency_adjustments_def bump_False)
  qed
qed

text \<open>
  Claim C7. For every message, category and signals, the fallback urgency starts from 50,
  adds exactly the adjustments that apply (+35, +20, +15, +15, then +10, +5 or -15 by
  category, -20, +10, -10, under the conditions listed), clamps the sum to the range from
  0 to 100, derives the level from the thresholds 70 and 30, and joins the reasons of the
  applied adjustments with a period and a blank, closed by a period, or gives the one
  default sentence when no adjustment applied.
\<close>

theorem fallback_urgency_adjustments:
  "getFallbackUrgency message category signals =
     (let adj = applied (urgency_adjustments category signals);
          s = max 0 (min 100 (50 + sum_list (map fst adj)))
      in \<lparr> ur_level = JString (if s \<ge> 70 then ''High'' else if s \<ge> 30 then ''Medium'' else ''Low''),
           ur_score = JNumber (of_int s),
           ur_reasoning = JString (if adj = [] then ''Standard priority based on message analysis.''
                                   else join ''. '' (map snd adj) @ ''.''),
           ur_signals = signals \<rparr>)"
  unfolding getFallbackUrgency_def
  apply (subst fallback_state)
  apply (simp only: foldl_bump)
  apply (simp add: Let_def level_of_score_def)
  done

lemma outage_signals:
  "detectSignals message_outage =
     \<lparr> hasCriticalKeyword = True, hasSystemImpact = False, hasBusinessImpact = False,
       exclamationCount = 2, questionCount = 0, isAllCaps = False,
       hasPositiveSentiment = False, hasNegativeSentiment = True,
       messageLength = 41, wordCount = 7 \<rparr>"
  by code_simp

theorem fallback_urgency_adjustments_witness:
  "getFallbackUrgency message_outage (JString ''Technical Problem'') (detectSignals message_outage)
     = \<lparr> ur_level = JString ''High'', ur_score = JNumber 100,
         ur_reasoning = JString ''Critical keywords detected indicating urgent issue. Customer expressing frustration or dissatisfaction. Technical issues often require timely resolution. Emphasis suggests heightened concern.'',
         ur_signals = detectSignals message_outage \<rparr>"
  using fallback_urgency_adjustments [of message_outage "JString ''Technical Problem''"
          "detectSignals message_outage"]
  unfolding outage_signals
  by (simp add: urgency_adjustments_def applied_def Let_def)

section \<open>Properties of the urgency engine\<close>

lemma fallback_score_eq:
  "ur_score (getFallbackUrgency message category signals)
     = JNumber (of_int (fallback_score category signals))"
  unfolding getFallbackUrgency_def
  apply (subst fallback_state)
  apply (simp only: foldl_bump)
  apply (simp add: Let_def fallback_score_def)
  done

lemma fallback_level_eq:
  "ur_level (getFallbackUrgency message category signals)
     = JString (level_of_score (fallback_score category signals))"
  unfolding getFallbackUrgency_def
  apply (subst fallback_state)
  apply (simp only: foldl_bump)
  apply (simp add: Let_def fallback_score_def)
  done

lemma fallback_score_range:
  "0 \<le> fallback_score category signals \<and> fallback_score category signals \<le> 100"
  by (simp add: fallback_score_def)

lemma level_of_score_thresholds:
  "(level_of_score s = ''High'') = (s \<ge> 70)
   \<and> (level_of_score s = ''Medium'') = (30 \<le> s \<and> s < 70)
   \<and> (level_of_score s = ''Low'') = (s < 30)"
  by (simp add: level_of_score_def)

lemma fallback_level_thresholds:
  "\<exists>s. ur_score (getFallbackUrgency message category signals) = JNumber (of_int s)
        \<and> 0 \<le> s \<and> s \<le> 100
        \<and> (ur_level (getFallbackUrgency message category signals) = JString ''High'') = (s \<ge> 70)
        \<and> (ur_level (getFallbackUrgency message category signals) = JString ''Medium'')
             = (30 \<le> s \<and> s < 70)
        \<and> (ur_level (getFallbackUrgency message category signals) = JString ''Low'') = (s < 30)"
proof (intro exI conjI)
  let ?s = "fallback_score category signals"
  show "ur_score (getFallbackUrgency message category signals) = JNumber (of_int ?s)"
    by (rule fallback_score_eq)
  show "0 \<le> ?s" "?s \<le> 100"
    using fallback_score_range [of category signals] by blast+
  show "(ur_level (getFallbackUrgency message category signals) = JString ''High'') = (?s \<ge> 70)"
    using level_of_score_thresholds [of ?s] by (simp only: fallback_level_eq jsval.inject)
  show "(ur_level (getFallbackUrgency message category signals) = JString ''Medium'')
          = (30 \<le> ?s \<and> ?s < 70)"
    using level_of_score_thresholds [of ?s] by (simp only: fallback_level_eq jsval.inject)
  show "(ur_level (getFallbackUrgency message category signals) = JString ''Low'') = (?s < 30)"
    using level_of_score_thresholds [of ?s] by (simp only: fallback_level_eq jsval.inject)
qed


lemma calculateUrgency_ai:
  assumes "outcome (groqRequest remote) = Inr content" "truthy (parseJsonResponse content)"
  shows "calculateUrgency remote message category =
           Inr \<lparr> ur_level = js_or (get_prop (parseJsonResponse content) ''level'') (JString ''Medium''),
                 ur_score = js_or (get_prop (parseJsonResponse content) ''score'') (JNumber 50),
                 ur_reasoning = js_or (get_prop (parseJsonResponse content) ''reasoning'')
                                  (JString ''Unable to determine detailed reasoning.''),
                 ur_signals = detectSignals message \<rparr>"
  using assms by (simp add: calculateUrgency_def Let_def)

lemma calculateUrgency_fallback:
  assumes "\<forall>content. outcome (groqRequest remote) = Inr content
             \<longrightarrow> \<not> truthy (parseJsonResponse content)"
  shows "calculateUrgency remote message category =
           Inr (getFallbackUrgency message category (detectSignals message))"
proof (cases "outcome (groqRequest remote)")
  case (Inl error)
  then show ?thesis by (simp add: calculateUrgency_def Let_def)
next
  case (Inr content)
  with assms have "\<not> truthy (parseJsonResponse content)" by blast
  with Inr show ?thesis by (simp add: calculateUrgency_def Let_def)
qed

lemma parse_reply_low_90:
  "parseJsonResponse reply_low_90 = JObject [(''level'', JString ''Low''), (''score'', JNumber 90)]"
  by code_simp

text \<open>
  Claim C1, as stated, fails on the AI-backed path: the engine copies the level and the
  score from the decoded reply, each on its own, and derives neither from the other. A
  reply that gives the level Low with the score 90 is returned as it is.
\<close>

theorem ai_level_not_derived_from_score:
  "calculateUrgency (always_replies reply_low_90) ''The site is down'' JNull =
     Inr \<lparr> ur_level = JString ''Low'', ur_score = JNumber 90,
           ur_reasoning = JString ''Unable to determine detailed reasoning.'',
           ur_signals = detectSignals ''The site is down'' \<rparr>"
proof -
  have "outcome (groqRequest (always_replies reply_low_90)) = Inr reply_low_90"
    by (simp add: groqRequest_always_replies)
  moreover have "truthy (parseJsonResponse reply_low_90)"
    by (simp add: parse_reply_low_90)
  ultimately show ?thesis
    by (simp add: calculateUrgency_ai [of _ reply_low_90] parse_reply_low_90 js_or_def)
qed

text \<open>
  Claim C1, amended. Every result of the fallback path has a score between 0 and 100
  and the level that the thresholds give it: High exactly when the score is at least
  70, Medium exactly when it is at least 30 and below 70, Low exactly when it is below
  30; the engine returns that result when the call fails or the reply does not decode.
  On the AI-backed path the level and the score are the reply's own fields, with Medium
  and 50 in place of a missing or falsy field.
\<close>

theorem level_from_score:
  "(\<exists>s. ur_score (getFallbackUrgency message category signals) = JNumber (of_int s)
        \<and> 0 \<le> s \<and> s \<le> 100
        \<and> (ur_level (getFallbackUrgency message category signals) = JString ''High'') = (s \<ge> 70)
        \<and> (ur_level (getFallbackUrgency message category signals) = JString ''Medium'')
             = (30 \<le> s \<and> s < 70)
        \<and> (ur_level (getFallbackUrgency message category signals) = JString ''Low'') = (s < 30))
   \<and> ((\<forall>content. outcome (groqRequest remote) = Inr content
           \<longrightarrow> \<not> truthy (parseJsonResponse content))
        \<longrightarrow> calculateUrgency remote message category =
              Inr (getFallbackUrgency message category (detectSignals message)))
   \<and> (outcome (groqRequest remote) = Inr content \<and> truthy (parseJsonResponse content)
        \<longrightarrow> (\<exists>r. calculateUrgency remote message category = Inr r
               \<and> ur_level r = js_or (get_prop (parseJsonResponse content) ''level'')
                               (JString ''Medium'')
               \<and> ur_score r = js_or (get_prop (parseJsonResponse content) ''score'')
                               (JNumber 50)))"
proof (intro conjI impI)
  show "\<exists>s. ur_score (getFallbackUrgency message category signals) = JNumber (of_int s)
        \<and> 0 \<le> s \<and> s \<le> 100
        \<and> (ur_level (getFallbackUrgency message category signals) = JString ''High'') = (s \<ge> 70)
        \<and> (ur_level (getFallbackUrgency message category signals) = JString ''Medium'')
             = (30 \<le> s \<and> s < 70)
        \<and> (ur_level (getFallbackUrgency message category signals) = JString ''Low'') = (s < 30)"
    by (rule fallback_level_thresholds)
next
  assume "\<forall>content. outcome (groqRequest remote) = Inr content
            \<longrightarrow> \<not> truthy (parseJsonResponse content)"
  then show "calculateUrgency remote message category =
              Inr (getFallbackUrgency message category (detectSignals message))"
    by (rule calculateUrgency_fallback)
next
  assume h: "outcome (groqRequest remote) = Inr content \<and> truthy (parseJsonResponse content)"
  show "\<exists>r. calculateUrgency remote message category = Inr r
               \<and> ur_level r = js_or (get_prop (parseJsonResponse content) ''level'')
                               (JString ''Medium'')
               \<and> ur_score r = js_or (get_prop (parseJsonResponse content) ''score'')
                               (JNumber 50)"
    using h by (simp add: calculateUrgency_ai [of remote content])
qed

theorem level_from_score_witness:
  "calculateUrgency (always_fails abort_error False) ''The site is down'' JNull
     = Inr (getFallbackUrgency ''The site is down'' JNull (detectSignals ''The site is down''))
   \<and> (\<exists>r. calculateUrgency (always_replies reply_low_90) ''The site is down'' JNull = Inr r
          \<and> ur_level r = JString ''Low'' \<and> ur_score r = JNumber 90)"
proof
  show "calculateUrgency (always_fails abort_error False) ''The site is down'' JNull
     = Inr (getFallbackUrgency ''The site is down'' JNull (detectSignals ''The site is down''))"
    using level_from_score [of "''The site is down''" JNull "detectSignals ''The site is down''"
            "always_fails abort_error False" reply_low_90, THEN conjunct2, THEN conjunct1]
    by (simp add: groqRequest_always_fails_abort)
next
  have "outcome (groqRequest (always_replies reply_low_90)) = Inr reply_low_90
          \<and> truthy (parseJsonResponse reply_low_90)"
    by (simp add: groqRequest_always_replies parse_reply_low_90)
  from level_from_score [of "''The site is down''" JNull "detectSignals ''The site is down''"
            "always_replies reply_low_90" reply_low_90, THEN conjunct2, THEN conjunct2,
            rule_format, OF this]
  show "\<exists>r. calculateUrgency (always_replies reply_low_90) ''The site is down'' JNull = Inr r
          \<and> ur_level r = JString ''Low'' \<and> ur_score r = JNumber 90"
    by (simp add: parse_reply_low_90 js_or_def)
qed

lemma parse_reply_score_zero:
  "parseJsonResponse reply_score_zero
     = JObject [(''level'', JString []), (''score'', JNumber 0),
                (''reasoning'', JString ''No urgency at all.'')]"
  by code_simp

text \<open>
  Claim C10. On the AI-backed path a decoded reply whose score is 0 is read like a reply
  without a score: the result has the score 50; a level that is the empty string gives
  the level Medium; and no result of this path has the score 0.
\<close>

theorem ai_score_zero_reads_as_missing:
  assumes "outcome (groqRequest remote) = Inr content"
    and "truthy (parseJsonResponse content)"
  shows "\<exists>r. calculateUrgency remote message category = Inr r
           \<and> (get_prop (parseJsonResponse content) ''score'' = JNumber 0
                \<longrightarrow> ur_score r = JNumber 50)
           \<and> (get_prop (parseJsonResponse content) ''score'' = JUndefined
                \<longrightarrow> ur_score r = JNumber 50)
           \<and> (get_prop (parseJsonResponse content) ''level'' = JString []
                \<longrightarrow> ur_level r = JString ''Medium'')
           \<and> ur_score r \<noteq> JNumber 0"
  using assms
  by (auto simp add: calculateUrgency_def Let_def js_or_def)

theorem ai_score_zero_reads_as_missing_witness:
  "\<exists>r. calculateUrgency (always_replies reply_score_zero) ''Thanks, all good'' JNull = Inr r
        \<and> ur_score r = JNumber 50 \<and> ur_level r = JString ''Medium''"
  using ai_score_zero_reads_as_missing [of "always_replies reply_score_zero" reply_score_zero
          "''Thanks, all good''" JNull]
  by (auto simp add: groqRequest_always_replies parse_reply_score_zero)

section \<open>Properties of the categorization engine\<close>

lemma categorizeMessage_object:
  assumes "outcome (groqRequest remote) = Inr content" "truthy (parseJsonResponse content)"
  shows "categorizeMessage remote pick message =
           Inr \<lparr> cr_category =
                   (if get_prop (parseJsonResponse content) ''category''
                         \<in> set (map JString fixed_categories)
                    then get_prop (parseJsonResponse content) ''category''
                    else JString ''Unknown''),
                 cr_reasoning = js_or (get_prop (parseJsonResponse content) ''reasoning'')
                                  (JString content),
                 cr_confidence = js_or (get_prop (parseJsonResponse content) ''confidence'')
                                   (JNumber (8 / 10)) \<rparr>"
  using assms by (auto simp add: categorizeMessage_def Let_def fixed_categories_def image_image)

lemma categorizeMessage_prose:
  assumes "outcome (groqRequest remote) = Inr content" "\<not> truthy (parseJsonResponse content)"
  shows "categorizeMessage remote pick message =
           Inr (extractCategoryFromProse pick content message)"
  using assms by (simp add: categorizeMessage_def Let_def)

lemma categorizeMessage_failed:
  assumes "outcome (groqRequest remote) = Inl error"
  shows "categorizeMessage remote pick message = Inr (getFallbackCategorization pick message)"
  using assms by (simp add: categorizeMessage_def)

lemma extract_first_match:
  assumes "i < length fixed_categories" "names_category content (fixed_categories ! i)"
    and "\<forall>j<i. \<not> names_category content (fixed_categories ! j)"
  shows "extractCategoryFromProse pick content message =
           \<lparr> cr_category = JString (fixed_categories ! i), cr_reasoning = JString content,
             cr_confidence = JNumber (7 / 10) \<rparr>"
proof -
  have "find (names_category content) fixed_categories = Some (fixed_categories ! i)"
    unfolding find_Some_iff using assms by blast
  then have "find (\<lambda>category. str_includes (toLowerCase content) (toLowerCase category))
               (map fst CATEGORY_DEFINITIONS) = Some (fixed_categories ! i)"
    by (simp add: names_category_def [abs_def] fixed_categories_def)
  then show ?thesis
    by (simp add: extractCategoryFromProse_def Let_def)
qed

lemma extract_no_match:
  assumes "\<forall>c\<in>set fixed_categories. \<not> names_category content c"
  shows "extractCategoryFromProse pick content message = getFallbackCategorization pick message"
proof -
  have "find (names_category content) fixed_categories = None"
    unfolding find_None_iff using assms by blast
  then have "find (\<lambda>category. str_includes (toLowerCase content) (toLowerCase category))
               (map fst CATEGORY_DEFINITIONS) = None"
    by (simp add: names_category_def [abs_def] fixed_categories_def)
  then show ?thesis
    by (simp add: extractCategoryFromProse_def Let_def)
qed

lemma parse_reply_lowercase_category:
  "parseJsonResponse reply_lowercase_category = JObject [(''category'', JString ''billing issue'')]"
  by code_simp

lemma parse_reply_prose: "parseJsonResponse reply_prose = JNull"
  by code_simp

lemma fixed_categories_eq:
  "fixed_categories = [''Billing Issue'', ''Technical Problem'', ''Feature Request'', ''General Inquiry'']"
  by (simp add: fixed_categories_def CATEGORY_DEFINITIONS_def)

text \<open>
  Claim C4, as stated, fails: a reply that decodes to an object whose category is not
  one of the fixed names is not searched for a name. The engine answers Unknown, with
  the confidence 0.8 when the reply gives none, although the reply names Billing Issue
  in lower case.
\<close>

theorem undefined_category_gives_unknown:
  "categorizeMessage (always_replies reply_lowercase_category) 0 ''I was charged twice''
     = Inr \<lparr> cr_category = JString ''Unknown'',
             cr_reasoning = JString reply_lowercase_category,
             cr_confidence = JNumber (8 / 10) \<rparr>
   \<and> names_category reply_lowercase_category ''Billing Issue''"
proof
  have "outcome (groqRequest (always_replies reply_lowercase_category))
          = Inr reply_lowercase_category"
    by (simp add: groqRequest_always_replies)
  moreover have "truthy (parseJsonResponse reply_lowercase_category)"
    by (simp add: parse_reply_lowercase_category)
  ultimately show "categorizeMessage (always_replies reply_lowercase_category) 0
       ''I was charged twice''
     = Inr \<lparr> cr_category = JString ''Unknown'',
             cr_reasoning = JString reply_lowercase_category,
             cr_confidence = JNumber (8 / 10) \<rparr>"
    by (simp add: categorizeMessage_object [of _ reply_lowercase_category]
          parse_reply_lowercase_category fixed_categories_eq js_or_def)
next
  show "names_category reply_lowercase_category ''Billing Issue''"
    by code_simp
qed

text \<open>
  Claim C4, amended. For every reply that decodes to an object whose category is not in
  the fixed set, the engine returns the category Unknown, the reply's reasoning (the raw
  reply when it has none) and the reply's confidence (0.8 when it has none). The search
  of the raw reply is made only when the reply does not decode: the first fixed category,
  in the order of the set, whose name occurs in the reply letter case apart is returned
  with the confidence 0.7, and the deterministic scoring is used when no name occurs.
\<close>

theorem category_outside_set:
  "(outcome (groqRequest remote) = Inr content \<and> parseJsonResponse content = JObject kvs
      \<and> get_prop (JObject kvs) ''category'' \<notin> set (map JString fixed_categories)
     \<longrightarrow> categorizeMessage remote pick message =
           Inr \<lparr> cr_category = JString ''Unknown'',
                 cr_reasoning = js_or (get_prop (JObject kvs) ''reasoning'') (JString content),
                 cr_confidence = js_or (get_prop (JObject kvs) ''confidence'')
                                   (JNumber (8 / 10)) \<rparr>)
   \<and> (outcome (groqRequest remote) = Inr content \<and> \<not> truthy (parseJsonResponse content)
     \<longrightarrow> categorizeMessage remote pick message =
           Inr (extractCategoryFromProse pick content message))
   \<and> (\<forall>i < length fixed_categories.
         names_category content (fixed_categories ! i)
           \<and> (\<forall>j<i. \<not> names_category content (fixed_categories ! j))
         \<longrightarrow> extractCategoryFromProse pick content message =
               \<lparr> cr_category = JString (fixed_categories ! i), cr_reasoning = JString content,
                 cr_confidence = JNumber (7 / 10) \<rparr>)
   \<and> ((\<forall>c\<in>set fixed_categories. \<not> names_category content c)
     \<longrightarrow> extractCategoryFromProse pick content message
           = getFallbackCategorization pick message)"
proof (intro conjI impI allI)
  assume h: "outcome (groqRequest remote) = Inr content \<and> parseJsonResponse content = JObject kvs
      \<and> get_prop (JObject kvs) ''category'' \<notin> set (map JString fixed_categories)"
  then have "truthy (parseJsonResponse content)" by simp
  with h show "categorizeMessage remote pick message =
           Inr \<lparr> cr_category = JString ''Unknown'',
                 cr_reasoning = js_or (get_prop (JObject kvs) ''reasoning'') (JString content),
                 cr_confidence = js_or (get_prop (JObject kvs) ''confidence'')
                                   (JNumber (8 / 10)) \<rparr>"
    using categorizeMessage_object [of remote content pick message] by simp
next
  assume "outcome (groqRequest remote) = Inr content \<and> \<not> truthy (parseJsonResponse content)"
  then show "categorizeMessage remote pick message =
           Inr (extractCategoryFromProse pick content message)"
    using categorizeMessage_prose [of remote content pick message] by blast
next
  fix i
  assume "i < length fixed_categories"
    and "names_category content (fixed_categories ! i)
           \<and> (\<forall>j<i. \<not> names_category content (fixed_categories ! j))"
  then show "extractCategoryFromProse pick content message =
               \<lparr> cr_category = JString (fixed_categories ! i), cr_reasoning = JString content,
                 cr_confidence = JNumber (7 / 10) \<rparr>"
    using extract_first_match [of i content pick message] by blast
next
  assume "\<forall>c\<in>set fixed_categories. \<not> names_category content c"
  then show "extractCategoryFromProse pick content message
           = getFallbackCategorization pick message"
    by (rule extract_no_match)
qed

theorem category_outside_set_witness:
  "categorizeMessage (always_replies reply_lowercase_category) 2 ''Where is my invoice?''
     = Inr \<lparr> cr_category = JString ''Unknown'',
             cr_reasoning = JString reply_lowercase_category,
             cr_confidence = JNumber (8 / 10) \<rparr>
   \<and> categorizeMessage (always_replies reply_prose) 2 ''Where is my invoice?''
     = Inr \<lparr> cr_category = JString ''Billing Issue'', cr_reasoning = JString reply_prose,
             cr_confidence = JNumber (7 / 10) \<rparr>"
proof
  note t = category_outside_set [of "always_replies reply_lowercase_category"
             reply_lowercase_category "[(''category'', JString ''billing issue'')]" 2
             "''Where is my invoice?''"]
  have "outcome (groqRequest (always_replies reply_lowercase_category))
           = Inr reply_lowercase_category
        \<and> parseJsonResponse reply_lowercase_category
           = JObject [(''category'', JString ''billing issue'')]
        \<and> get_prop (JObject [(''category'', JString ''billing issue'')]) ''category''
           \<notin> set (map JString fixed_categories)"
    by (simp add: groqRequest_always_replies parse_reply_lowercase_category fixed_categories_eq)
  from t [THEN conjunct1, rule_format, OF this]
  show "categorizeMessage (always_replies reply_lowercase_category) 2 ''Where is my invoice?''
     = Inr \<lparr> cr_category = JString ''Unknown'',
             cr_reasoning = JString reply_lowercase_category,
             cr_confidence = JNumber (8 / 10) \<rparr>"
    by (simp add: js_or_def)
next
  note t = category_outside_set [of "always_replies reply_prose" reply_prose "[]" 2
             "''Where is my invoice?''"]
  have a: "outcome (groqRequest (always_replies reply_prose)) = Inr reply_prose
        \<and> \<not> truthy (parseJsonResponse reply_prose)"
    by (simp add: groqRequest_always_replies parse_reply_prose)
  have b: "(0::nat) < length fixed_categories" by (simp add: fixed_categories_eq)
  have c: "names_category reply_prose (fixed_categories ! 0)
             \<and> (\<forall>j<0. \<not> names_category reply_prose (fixed_categories ! j))"
  proof -
    have "names_category reply_prose ''Billing Issue''" by code_simp
    then show ?thesis by (simp add: fixed_categories_eq)
  qed
  from t [THEN conjunct2, THEN conjunct1, rule_format, OF a]
       t [THEN conjunct2, THEN conjunct2, THEN conjunct1, rule_format, OF b c]
  show "categorizeMessage (always_replies reply_prose) 2 ''Where is my invoice?''
     = Inr \<lparr> cr_category = JString ''Billing Issue'', cr_reasoning = JString reply_prose,
             cr_confidence = JNumber (7 / 10) \<rparr>"
    by (simp add: fixed_categories_eq)
qed

section \<open>Properties of the fallback categorization\<close>

lemma foldl_keyword_score:
  "foldl (\<lambda>score keyword.
            if str_includes lowerMessage keyword then score + word_count keyword else score)
     a kws
   = a + sum_list (map word_count (filter (str_includes lowerMessage) kws))"
  by (induction kws arbitrary: a) simp_all

lemma keyword_score_sum:
  "keyword_score lowerMessage kws
     = sum_list (map word_count (filter (str_includes lowerMessage) kws))"
  by (simp add: keyword_score_def foldl_keyword_score)

lemma keyword_score_pos:
  assumes "kw \<in> set kws" "str_includes lowerMessage kw"
  shows "keyword_score lowerMessage kws > 0"
proof -
  have "kw \<in> set (filter (str_includes lowerMessage) kws)" using assms by simp
  then have "word_count kw \<le> sum_list (map word_count (filter (str_includes lowerMessage) kws))"
    by (simp add: member_le_sum_list)
  moreover have "word_count kw > 0" by (simp add: word_count_def)
  ultimately show ?thesis by (simp add: keyword_score_sum)
qed

lemma initial_scores_eq:
  "initial_scores lowerMessage =
     [(''Billing Issue'', keyword_score lowerMessage (keywords_of ''Billing Issue'')),
      (''Technical Problem'', keyword_score lowerMessage (keywords_of ''Technical Problem'')),
      (''Feature Request'', keyword_score lowerMessage (keywords_of ''Feature Request'')),
      (''General Inquiry'', keyword_score lowerMessage (keywords_of ''General Inquiry''))]"
  by (simp add: initial_scores_def keywords_of_def CATEGORY_DEFINITIONS_def)

lemma payment_failure_scores:
  assumes "payment_failure lowerMessage"
  shows "keyword_score lowerMessage (keywords_of ''Billing Issue'') > 0
         \<and> keyword_score lowerMessage (keywords_of ''Technical Problem'') > 0"
proof
  have "str_includes lowerMessage ''payment''" using assms by (simp add: payment_failure_def)
  moreover have "''payment'' \<in> set (keywords_of ''Billing Issue'')"
    by (simp add: keywords_of_def CATEGORY_DEFINITIONS_def)
  ultimately show "keyword_score lowerMessage (keywords_of ''Billing Issue'') > 0"
    by (rule keyword_score_pos [rotated])
next
  have m: "''fail'' \<in> set (keywords_of ''Technical Problem'')"
          "''error'' \<in> set (keywords_of ''Technical Problem'')"
    by (simp_all add: keywords_of_def CATEGORY_DEFINITIONS_def)
  have "str_includes lowerMessage ''fail'' \<or> str_includes lowerMessage ''error''"
    using assms by (simp add: payment_failure_def)
  then show "keyword_score lowerMessage (keywords_of ''Technical Problem'') > 0"
    using m keyword_score_pos by blast
qed

lemma adjusted_scores_eq:
  "adjusted_scores (toLowerCase message) =
     [(''Billing Issue'', spec_score message ''Billing Issue''),
      (''Technical Problem'', spec_score message ''Technical Problem''),
      (''Feature Request'', spec_score message ''Feature Request''),
      (''General Inquiry'', spec_score message ''General Inquiry'')]"
proof (cases "payment_failure (toLowerCase message)")
  case True
  from payment_failure_scores [OF True] True show ?thesis
    by (simp add: adjusted_scores_def initial_scores_eq score_at_def spec_score_def
          keyword_score_sum payment_failure_def)
next
  case False
  then show ?thesis
    by (auto simp add: adjusted_scores_def initial_scores_eq score_at_def spec_score_def
          keyword_score_sum payment_failure_def Let_def)
qed

lemma find_best_four:
  assumes "find_best [(''Billing Issue'', b), (''Technical Problem'', t),
                      (''Feature Request'', f), (''General Inquiry'', g)] = (c, s)"
  shows "(c, s) \<in> {(''Billing Issue'', b), (''Technical Problem'', t),
                    (''Feature Request'', f), (''General Inquiry'', g)}
         \<and> b \<le> s \<and> t \<le> s \<and> f \<le> s \<and> g \<le> s
         \<and> (s = 0 \<longrightarrow> c = ''General Inquiry'')"
  using assms by (auto simp add: find_best_def best_step_def split: if_splits)

lemma fallback_categorization_best:
  assumes "find_best (adjusted_scores (toLowerCase message)) = (c, s)"
  shows "getFallbackCategorization pick message =
           \<lparr> cr_category = JString c,
             cr_reasoning = generateFallbackReasoning pick c,
             cr_confidence = JNumber (if s > 2 then 8 / 10 else if s > 0 then 6 / 10 else 4 / 10) \<rparr>"
  using assms by (simp add: getFallbackCategorization_def Let_def)

text \<open>
  Claim C6. For every message, the fallback categorization returns a fixed category
  whose score is the highest: the score of a category is the sum, over the category's
  keywords found in the lower-cased message, of the keyword's number of words, with 2
  added to Billing Issue when the message has "payment" and "fail" or "error". A
  category whose score is strictly above all others is the one returned; General Inquiry
  is returned when all scores are zero; the confidence is 0.8 when the winning score
  exceeds 2, 0.6 when it is positive, 0.4 otherwise.
\<close>

theorem fallback_categorization_scores:
  "\<exists>c. c \<in> set fixed_categories
      \<and> cr_category (getFallbackCategorization pick message) = JString c
      \<and> (\<forall>d\<in>set fixed_categories. spec_score message d \<le> spec_score message c)
      \<and> (\<forall>e\<in>set fixed_categories.
            (\<forall>d\<in>set fixed_categories. d \<noteq> e \<longrightarrow> spec_score message d < spec_score message e)
            \<longrightarrow> c = e)
      \<and> ((\<forall>d\<in>set fixed_categories. spec_score message d = 0) \<longrightarrow> c = ''General Inquiry'')
      \<and> cr_confidence (getFallbackCategorization pick message)
          = JNumber (if spec_score message c > 2 then 8 / 10
                     else if spec_score message c > 0 then 6 / 10 else 4 / 10)"
proof -
  obtain c s where best: "find_best (adjusted_scores (toLowerCase message)) = (c, s)"
    by (cases "find_best (adjusted_scores (toLowerCase message))")
  note four = find_best_four [OF best [unfolded adjusted_scores_eq]]
  have mem: "c \<in> set fixed_categories"
    using four unfolding fixed_categories_eq by auto
  have sc: "s = spec_score message c"
    using four by auto
  have le: "spec_score message d \<le> spec_score message c" if "d \<in> set fixed_categories" for d
    using four that unfolding fixed_categories_eq sc by auto
  have strict: "c = e" if "e \<in> set fixed_categories"
      "\<forall>d\<in>set fixed_categories. d \<noteq> e \<longrightarrow> spec_score message d < spec_score message e" for e
  proof (rule ccontr)
    assume "c \<noteq> e"
    with that(2) mem have "spec_score message c < spec_score message e" by blast
    moreover from le that(1) have "spec_score message e \<le> spec_score message c" by blast
    ultimately show False by simp
  qed
  have zero: "c = ''General Inquiry''" if "\<forall>d\<in>set fixed_categories. spec_score message d = 0"
  proof -
    from that mem have "spec_score message c = 0" by blast
    with sc four show ?thesis by blast
  qed
  have res: "getFallbackCategorization pick message =
           \<lparr> cr_category = JString c,
             cr_reasoning = generateFallbackReasoning pick c,
             cr_confidence = JNumber (if spec_score message c > 2 then 8 / 10
                     else if spec_score message c > 0 then 6 / 10 else 4 / 10) \<rparr>"
    using fallback_categorization_best [OF best, of pick] unfolding sc .
  show ?thesis
  proof (intro exI [of _ c] conjI ballI impI)
    show "c \<in> set fixed_categories" by (rule mem)
    show "cr_category (getFallbackCategorization pick message) = JString c"
      unfolding res by simp
    show "spec_score message d \<le> spec_score message c" if "d \<in> set fixed_categories" for d
      using that by (rule le)
    show "c = e" if "e \<in> set fixed_categories"
      "\<forall>d\<in>set fixed_categories. d \<noteq> e \<longrightarrow> spec_score message d < spec_score message e" for e
      using that by (rule strict)
    show "c = ''General Inquiry''" if "\<forall>d\<in>set fixed_categories. spec_score message d = 0"
      using that by (rule zero)
    show "cr_confidence (getFallbackCategorization pick message)
          = JNumber (if spec_score message c > 2 then 8 / 10
                     else if spec_score message c > 0 then 6 / 10 else 4 / 10)"
      unfolding res by (simp only: CategoryResult.select_convs)
  qed
qed

lemma scores_payment_failed:
  "spec_score message_payment_failed ''Billing Issue'' = 3"
  "spec_score message_payment_failed ''Technical Problem'' = 2"
  "spec_score message_payment_failed ''Feature Request'' = 0"
  "spec_score message_payment_failed ''General Inquiry'' = 0"
  by code_simp+

theorem fallback_categorization_scores_witness:
  "cr_category (getFallbackCategorization 1 message_payment_failed) = JString ''Billing Issue''
   \<and> cr_confidence (getFallbackCategorization 1 message_payment_failed) = JNumber (8 / 10)"
proof -
  from fallback_categorization_scores [of 1 message_payment_failed]
  obtain c where c: "c \<in> set fixed_categories"
    "cr_category (getFallbackCategorization 1 message_payment_failed) = JString c"
    "\<forall>d\<in>set fixed_categories.
        spec_score message_payment_failed d \<le> spec_score message_payment_failed c"
    "cr_confidence (getFallbackCategorization 1 message_payment_failed)
          = JNumber (if spec_score message_payment_failed c > 2 then 8 / 10
                     else if spec_score message_payment_failed c > 0 then 6 / 10 else 4 / 10)"
    by blast
  from c(3) have "spec_score message_payment_failed ''Billing Issue''
                    \<le> spec_score message_payment_failed c"
    by (simp add: fixed_categories_eq)
  with c(1) have "c = ''Billing Issue''"
    by (auto simp add: fixed_categories_eq scores_payment_failed)
  with c(2,4) show ?thesis by (simp add: scores_payment_failed)
qed

section \<open>Properties of the fallback recommendation\<close>

lemma scan_triggers_find:
  "scan_triggers lowerMessage ts =
     (case find (\<lambda>t. some_included (tg_keywords t) lowerMessage) ts of
        Some t \<Rightarrow> (True, JString (tg_reason t))
      | None \<Rightarrow> (False, JNull))"
  by (induction ts) simp_all

lemma scan_first_match:
  assumes "i < length ts" "some_included (tg_keywords (ts ! i)) lowerMessage"
    and "\<forall>j<i. \<not> some_included (tg_keywords (ts ! j)) lowerMessage"
  shows "scan_triggers lowerMessage ts = (True, JString (tg_reason (ts ! i)))"
proof -
  have "find (\<lambda>t. some_included (tg_keywords t) lowerMessage) ts = Some (ts ! i)"
    unfolding find_Some_iff using assms by blast
  then show ?thesis by (simp add: scan_triggers_find)
qed

lemma scan_no_match:
  assumes "\<forall>t\<in>set ts. \<not> some_included (tg_keywords t) lowerMessage"
  shows "scan_triggers lowerMessage ts = (False, JNull)"
proof -
  have "find (\<lambda>t. some_included (tg_keywords t) lowerMessage) ts = None"
    unfolding find_None_iff using assms by blast
  then show ?thesis by (simp add: scan_triggers_find)
qed

lemma recommendation_escalation:
  "ar_escalate (getFallbackRecommendation message category urgency)
     = JBool (fst (scan_triggers (toLowerCase message) escalationTriggers) \<or> urgency = JString ''High'')
   \<and> ar_escalateReason (getFallbackRecommendation message category urgency)
     = (if fst (scan_triggers (toLowerCase message) escalationTriggers)
        then snd (scan_triggers (toLowerCase message) escalationTriggers)
        else if urgency = JString ''High''
        then JString ''High urgency issue requires immediate supervisor attention''
        else JNull)"
proof (cases "scan_triggers (toLowerCase message) escalationTriggers")
  case (Pair e r)
  have "r = JNull" if "\<not> e"
    using Pair that by (simp add: scan_triggers_find split: option.splits)
  with Pair show ?thesis
    by (simp add: getFallbackRecommendation_def Let_def)
qed

text \<open>
  Claim C9. The fallback recommendation scans the escalation groups in the order
  security, legal, churn risk, VIP, system-wide. The first group with a keyword in the
  message sets the escalation with that group's reason, whatever later groups hold; so a
  message with a security keyword escalates with the security reason even when it also
  has a VIP keyword. When no group matches and the urgency is High, the escalation is
  set with the supervisor-attention reason; when no group matches and the urgency is not
  High, there is no escalation and the reason is null.
\<close>

theorem first_trigger_group_wins:
  "map tg_reason escalationTriggers =
     [''Security concern requires immediate escalation to security team'',
      ''Legal mention requires escalation to legal/compliance team'',
      ''Churn risk - escalate to retention team'',
      ''Executive/VIP customer requires priority handling'',
      ''System-wide issue affecting multiple users'']
   \<and> (\<forall>i < length escalationTriggers.
         trigger_matches message (escalationTriggers ! i)
           \<and> (\<forall>j<i. \<not> trigger_matches message (escalationTriggers ! j))
         \<longrightarrow> ar_escalate (getFallbackRecommendation message category urgency) = JBool True
             \<and> ar_escalateReason (getFallbackRecommendation message category urgency)
                 = JString (tg_reason (escalationTriggers ! i)))
   \<and> (trigger_matches message (escalationTriggers ! 0)
         \<longrightarrow> ar_escalate (getFallbackRecommendation message category urgency) = JBool True
             \<and> ar_escalateReason (getFallbackRecommendation message category urgency)
                 = JString ''Security concern requires immediate escalation to security team'')
   \<and> ((\<forall>t\<in>set escalationTriggers. \<not> trigger_matches message t) \<and> urgency = JString ''High''
         \<longrightarrow> ar_escalate (getFallbackRecommendation message category urgency) = JBool True
             \<and> ar_escalateReason (getFallbackRecommendation message category urgency)
                 = JString ''High urgency issue requires immediate supervisor attention'')
   \<and> ((\<forall>t\<in>set escalationTriggers. \<not> trigger_matches message t) \<and> urgency \<noteq> JString ''High''
         \<longrightarrow> ar_escalate (getFallbackRecommendation message category urgency) = JBool False
             \<and> ar_escalateReason (getFallbackRecommendation message category urgency) = JNull)"
proof (intro conjI allI impI)
  show "map tg_reason escalationTriggers =
     [''Security concern requires immediate escalation to security team'',
      ''Legal mention requires escalation to legal/compliance team'',
      ''Churn risk - escalate to retention team'',
      ''Executive/VIP customer requires priority handling'',
      ''System-wide issue affecting multiple users'']"
    by (simp add: escalationTriggers_def)
next
  fix i
  assume "i < length escalationTriggers"
    and "trigger_matches message (escalationTriggers ! i)
           \<and> (\<forall>j<i. \<not> trigger_matches message (escalationTriggers ! j))"
  then have s: "scan_triggers (toLowerCase message) escalationTriggers
               = (True, JString (tg_reason (escalationTriggers ! i)))"
    using scan_first_match [of i escalationTriggers "toLowerCase message"]
    by (simp add: trigger_matches_def)
  show "ar_escalate (getFallbackRecommendation message category urgency) = JBool True"
    using s recommendation_escalation [of message category urgency] by simp
  show "ar_escalateReason (getFallbackRecommendation message category urgency)
                 = JString (tg_reason (escalationTriggers ! i))"
    using s recommendation_escalation [of message category urgency] by simp
next
  assume "trigger_matches message (escalationTriggers ! 0)"
  then have s: "scan_triggers (toLowerCase message) escalationTriggers
               = (True, JString (tg_reason (escalationTriggers ! 0)))"
    using scan_first_match [of 0 escalationTriggers "toLowerCase message"]
    by (simp add: trigger_matches_def escalationTriggers_def)
  show "ar_escalate (getFallbackRecommendation message category urgency) = JBool True"
    using s recommendation_escalation [of message category urgency] by simp
  show "ar_escalateReason (getFallbackRecommendation message category urgency)
                 = JString ''Security concern requires immediate escalation to security team''"
    using s recommendation_escalation [of message category urgency]
    by (simp add: escalationTriggers_def)
next
  assume h: "(\<forall>t\<in>set escalationTriggers. \<not> trigger_matches message t) \<and> urgency = JString ''High''"
  then have s: "scan_triggers (toLowerCase message) escalationTriggers = (False, JNull)"
    using scan_no_match [of escalationTriggers "toLowerCase message"]
    by (simp add: trigger_matches_def)
  show "ar_escalate (getFallbackRecommendation message category urgency) = JBool True"
    using s h recommendation_escalation [of message category urgency] by simp
  show "ar_escalateReason (getFallbackRecommendation message category urgency)
                 = JString ''High urgency issue requires immediate supervisor attention''"
    using s h recommendation_escalation [of message category urgency] by simp
next
  assume h: "(\<forall>t\<in>set escalationTriggers. \<not> trigger_matches message t) \<and> urgency \<noteq> JString ''High''"
  then have s: "scan_triggers (toLowerCase message) escalationTriggers = (False, JNull)"
    using scan_no_match [of escalationTriggers "toLowerCase message"]
    by (simp add: trigger_matches_def)
  show "ar_escalate (getFallbackRecommendation message category urgency) = JBool False"
    using s h recommendation_escalation [of message category urgency] by simp
  show "ar_escalateReason (getFallbackRecommendation message category urgency) = JNull"
    using s h recommendation_escalation [of message category urgency] by simp
qed

theorem first_trigger_group_wins_witness:
  "trigger_matches message_security_vip (escalationTriggers ! 0)
   \<and> trigger_matches message_security_vip (escalationTriggers ! 3)
   \<and> ar_escalate (getFallbackRecommendation message_security_vip (JString ''Technical Problem'')
         (JString ''Medium'')) = JBool True
   \<and> ar_escalateReason (getFallbackRecommendation message_security_vip
         (JString ''Technical Problem'') (JString ''Medium''))
       = JString ''Security concern requires immediate escalation to security team''"
proof -
  have a: "trigger_matches message_security_vip (escalationTriggers ! 0)" by code_simp
  have b: "trigger_matches message_security_vip (escalationTriggers ! 3)" by code_simp
  from first_trigger_group_wins [of message_security_vip "JString ''Technical Problem''"
          "JString ''Medium''", THEN conjunct2, THEN conjunct2, THEN conjunct1, rule_format, OF a]
  show ?thesis using a b by simp
qed

section \<open>Properties of the orchestrator\<close>

lemma loop_all_fail:
  "(\<forall>i. \<exists>e a. remote i = Failed e a)
     \<Longrightarrow> \<exists>t. outcome (groqRequest_loop remote attempt lastError slept) = Inl t"
proof (induction remote attempt lastError slept rule: groqRequest_loop.induct)
  case (1 remote attempt lastError slept)
  from "1.prems" obtain e a where f: "remote attempt = Failed e a" by blast
  show ?case
  proof (cases "attempt \<le> CONFIG_maxRetries")
    case False
    then show ?thesis by (simp add: groqRequest_loop.simps [of remote attempt lastError slept])
  next
    case True
    show ?thesis
    proof (cases "(err_name e = ''AbortError'' \<and> a)
                    \<or> (err_status e = Some 401 \<or> err_status e = Some 403)")
      case True
      with \<open>attempt \<le> CONFIG_maxRetries\<close> f show ?thesis
        by (auto simp add: groqRequest_loop.simps [of remote attempt lastError slept])
    next
      case False
      with \<open>attempt \<le> CONFIG_maxRetries\<close> f "1.IH"(1) [of e a] "1.IH"(2) [of e a] "1.prems"
      show ?thesis
        by (auto simp add: groqRequest_loop.simps [of remote attempt lastError slept])
    qed
  qed
qed

lemma unavailable_outcome:
  assumes "unavailable remote"
  shows "\<exists>t. outcome (groqRequest remote) = Inl t"
proof -
  from assms have "\<forall>i. \<exists>e a. remote i = Failed e a"
    unfolding unavailable_def by blast
  then show ?thesis unfolding groqRequest_def by (rule loop_all_fail)
qed

lemma calculateUrgency_failed:
  assumes "outcome (groqRequest remote) = Inl error"
  shows "calculateUrgency remote message category
           = Inr (getFallbackUrgency message category (detectSignals message))"
  using assms by (simp add: calculateUrgency_def Let_def)

lemma getRecommendedAction_failed:
  assumes "outcome (groqRequest remote) = Inl error"
  shows "getRecommendedAction remote message category urgency
           = Inr (getFallbackRecommendation message category urgency)"
  using assms by (simp add: getRecommendedAction_def)

lemma dark_mode_best:
  "find_best (adjusted_scores (toLowerCase message_dark_mode)) = (''Feature Request'', 2)"
  by code_simp

lemma dark_mode_category:
  "getFallbackCategorization pick message_dark_mode =
     \<lparr> cr_category = JString ''Feature Request'',
       cr_reasoning = generateFallbackReasoning pick ''Feature Request'',
       cr_confidence = JNumber (6 / 10) \<rparr>"
  using fallback_categorization_best [OF dark_mode_best, of pick] by simp

lemma dark_mode_signals:
  "detectSignals message_dark_mode =
     \<lparr> hasCriticalKeyword = False, hasSystemImpact = False, hasBusinessImpact = False,
       exclamationCount = 0, questionCount = 1, isAllCaps = False,
       hasPositiveSentiment = False, hasNegativeSentiment = False,
       messageLength = 32, wordCount = 7 \<rparr>"
  by code_simp

lemma dark_mode_urgency:
  "getFallbackUrgency message_dark_mode JNull (detectSignals message_dark_mode) =
     \<lparr> ur_level = JString ''Medium'', ur_score = JNumber 40,
       ur_reasoning = JString ''Question format suggests inquiry rather than urgent issue.'',
       ur_signals = detectSignals message_dark_mode \<rparr>"
  unfolding dark_mode_signals by code_simp

lemma dark_mode_urgency_with_category:
  "getFallbackUrgency message_dark_mode (JString ''Feature Request'')
       (detectSignals message_dark_mode) =
     \<lparr> ur_level = JString ''Low'', ur_score = JNumber 25,
       ur_reasoning = JString ''Feature requests are typically non-urgent. Question format suggests inquiry rather than urgent issue.'',
       ur_signals = detectSignals message_dark_mode \<rparr>"
  unfolding dark_mode_signals by code_simp

lemma dark_mode_escalation:
  "ar_escalate (getFallbackRecommendation message_dark_mode (JString ''Feature Request'')
                  (JString ''Medium'')) = JBool False
   \<and> ar_escalateReason (getFallbackRecommendation message_dark_mode (JString ''Feature Request'')
                  (JString ''Medium'')) = JNull"
  by code_simp

lemma dark_mode_not_blank: "trim message_dark_mode \<noteq> []"
  by code_simp

lemma handleAnalyze_all_failed:
  assumes "outcome (groqRequest remoteC) = Inl errorC"
    and "outcome (groqRequest remoteU) = Inl errorU"
    and "outcome (groqRequest remoteA) = Inl errorA"
    and "trim message \<noteq> []"
  shows "handleAnalyze remoteC remoteU remoteA pick now message st =
           st\<lparr> results := Some (fallback_record pick now message),
               triageHistory := triageHistory st @ [fallback_record pick now message] \<rparr>"
  using assms(4)
  by (simp add: handleAnalyze_def Let_def fallback_record_def
        categorizeMessage_failed [OF assms(1)] calculateUrgency_failed [OF assms(2)]
        getRecommendedAction_failed [OF assms(3)])

lemma dark_mode_record:
  "tr_category (fallback_record pick now message_dark_mode) = JString ''Feature Request''
   \<and> tr_urgency (fallback_record pick now message_dark_mode) = JString ''Medium''
   \<and> tr_urgencyScore (fallback_record pick now message_dark_mode) = JNumber 40
   \<and> tr_escalate (fallback_record pick now message_dark_mode) = JBool False
   \<and> tr_escalateReason (fallback_record pick now message_dark_mode) = JNull"
  by (simp add: fallback_record_def Let_def dark_mode_category dark_mode_urgency
        dark_mode_escalation)

lemma unavailable_always_fails: "unavailable (always_fails error False)"
  by (auto simp add: unavailable_def always_fails_def is_cancellation_def)

text \<open>
  Claim C5, as stated, fails on the urgency level. When every remote call fails, the
  message "Can you add a dark mode feature?" is given the level Medium with the score
  40, not Low: the orchestrator calls the urgency engine without a category, so the
  Feature Request adjustment is not applied.
\<close>

theorem dark_mode_level_is_medium:
  "unavailable (always_fails abort_error False)
   \<and> map_option tr_urgency
        (results (handleAnalyze (always_fails abort_error False)
                    (always_fails abort_error False) (always_fails abort_error False)
                    0 ''2024-05-01T10:00:00.000Z'' message_dark_mode initial_page))
       = Some (JString ''Medium'')
   \<and> map_option tr_urgencyScore
        (results (handleAnalyze (always_fails abort_error False)
                    (always_fails abort_error False) (always_fails abort_error False)
                    0 ''2024-05-01T10:00:00.000Z'' message_dark_mode initial_page))
       = Some (JNumber 40)"
proof -
  have o: "outcome (groqRequest (always_fails abort_error False)) = Inl (Some abort_error)"
    by (simp add: groqRequest_always_fails_abort)
  show ?thesis
    by (simp add: handleAnalyze_all_failed [OF o o o dark_mode_not_blank] dark_mode_record
          unavailable_always_fails)
qed

text \<open>
  Claim C5, amended. For the message "Can you add a dark mode feature?", analysed while
  every remote call fails with an error that is not a cancellation, the assembled result
  has the category Feature Request, the urgency level Medium with the score 40 (50 less
  10 for the question; no category reaches the urgency engine, and the message has no
  critical or negative signal), and no escalation.
\<close>

theorem dark_mode_scenario:
  assumes "unavailable remoteC" "unavailable remoteU" "unavailable remoteA"
  shows "\<exists>rec. results (handleAnalyze remoteC remoteU remoteA pick now message_dark_mode st)
                 = Some rec
           \<and> tr_category rec = JString ''Feature Request''
           \<and> tr_urgency rec = JString ''Medium''
           \<and> tr_urgencyScore rec = JNumber 40
           \<and> tr_escalate rec = JBool False"
proof -
  from unavailable_outcome [OF assms(1)]
  obtain c where c: "outcome (groqRequest remoteC) = Inl c" ..
  from unavailable_outcome [OF assms(2)]
  obtain u where u: "outcome (groqRequest remoteU) = Inl u" ..
  from unavailable_outcome [OF assms(3)]
  obtain a where a: "outcome (groqRequest remoteA) = Inl a" ..
  from handleAnalyze_all_failed [OF c u a dark_mode_not_blank, of pick now st]
  have "results (handleAnalyze remoteC remoteU remoteA pick now message_dark_mode st)
          = Some (fallback_record pick now message_dark_mode)"
    by simp
  then show ?thesis using dark_mode_record [of pick now] by blast
qed

theorem dark_mode_scenario_witness:
  "\<exists>rec. results (handleAnalyze (always_fails abort_error False)
                    (always_fails auth_error False) (always_fails abort_error False)
                    2 ''2024-05-01T10:00:00.000Z'' message_dark_mode initial_page) = Some rec
         \<and> tr_category rec = JString ''Feature Request''
         \<and> tr_urgency rec = JString ''Medium''
         \<and> tr_urgencyScore rec = JNumber 40
         \<and> tr_escalate rec = JBool False"
proof -
  from dark_mode_scenario [OF unavailable_always_fails unavailable_always_fails
         unavailable_always_fails]
  show ?thesis .
qed

lemma groqRequest_cancelled:
  "groqRequest (always_fails abort_error True)
     = \<lparr> outcome = Inl (Some request_cancelled), attempts = 1, delays = [] \<rparr>"
proof -
  have f: "always_fails abort_error True 0 = Failed abort_error True"
    by (simp add: always_fails_def)
  have c: "is_cancellation abort_error True"
    by (simp add: is_cancellation_def abort_error_def)
  show ?thesis
    unfolding groqRequest_def
    using f c loop_cancelled [of "always_fails abort_error True" 0 abort_error True None "[]"]
    by simp
qed

text \<open>
  No engine ever throws, so whatever the remote service does, the analysis of a message
  that is not blank ends with a record displayed and stored.
\<close>

lemma categorizeMessage_returns: "\<exists>r. categorizeMessage remote pick message = Inr r"
  by (simp add: categorizeMessage_def Let_def split: sum.splits)

lemma calculateUrgency_returns: "\<exists>r. calculateUrgency remote message category = Inr r"
  by (simp add: calculateUrgency_def Let_def split: sum.splits)

lemma getRecommendedAction_returns:
  "\<exists>r. getRecommendedAction remote message category urgency = Inr r"
  by (simp add: getRecommendedAction_def Let_def split: sum.splits)

lemma handleAnalyze_always_records:
  assumes "trim message \<noteq> []"
  shows "\<exists>rec. handleAnalyze remoteC remoteU remoteA pick now message st
                 = st\<lparr> results := Some rec, triageHistory := triageHistory st @ [rec] \<rparr>"
proof -
  obtain c where c: "categorizeMessage remoteC pick message = Inr c"
    using categorizeMessage_returns by blast
  obtain u where u: "calculateUrgency remoteU message JNull = Inr u"
    using calculateUrgency_returns by blast
  obtain a where a: "getRecommendedAction remoteA message (cr_category c) (ur_level u) = Inr a"
    using getRecommendedAction_returns by blast
  show ?thesis
    using assms by (simp add: handleAnalyze_def Let_def c u a) blast
qed

text \<open>
  Claim C2 does not hold of the code. When the caller's signal is aborted while the
  first call of a stage is in flight, the call client throws its cancellation error
  after that one call, but the engine's \<^verbatim>\<open>catch\<close> takes it like any other error and
  returns the fallback result; \<^verbatim>\<open>handleAnalyze\<close> then assembles a record, displays it and
  appends it to the stored history, and its branch for a cancelled analysis is never
  entered (the console stays empty).
\<close>

theorem cancellation_is_absorbed:
  "is_cancellation abort_error True
   \<and> groqRequest (always_fails abort_error True)
       = \<lparr> outcome = Inl (Some request_cancelled), attempts = 1, delays = [] \<rparr>
   \<and> categorizeMessage (always_fails abort_error True) 0 message_dark_mode
       = Inr (getFallbackCategorization 0 message_dark_mode)
   \<and> calculateUrgency (always_fails abort_error True) message_dark_mode JNull
       = Inr (getFallbackUrgency message_dark_mode JNull (detectSignals message_dark_mode))
   \<and> handleAnalyze (always_fails abort_error True) (always_fails abort_error True)
        (always_fails abort_error True) 0 ''2024-05-01T10:00:00.000Z'' message_dark_mode
        initial_page
       = \<lparr> results = Some (fallback_record 0 ''2024-05-01T10:00:00.000Z'' message_dark_mode),
           triageHistory = [fallback_record 0 ''2024-05-01T10:00:00.000Z'' message_dark_mode],
           alerts = [], console = [] \<rparr>
   \<and> tr_category (fallback_record 0 ''2024-05-01T10:00:00.000Z'' message_dark_mode)
       = JString ''Feature Request''"
proof -
  have o: "outcome (groqRequest (always_fails abort_error True)) = Inl (Some request_cancelled)"
    by (simp add: groqRequest_cancelled)
  have c: "is_cancellation abort_error True"
    by (simp add: is_cancellation_def abort_error_def)
  have h: "handleAnalyze (always_fails abort_error True) (always_fails abort_error True)
        (always_fails abort_error True) 0 ''2024-05-01T10:00:00.000Z'' message_dark_mode
        initial_page
       = \<lparr> results = Some (fallback_record 0 ''2024-05-01T10:00:00.000Z'' message_dark_mode),
           triageHistory = [fallback_record 0 ''2024-05-01T10:00:00.000Z'' message_dark_mode],
           alerts = [], console = [] \<rparr>"
    unfolding handleAnalyze_all_failed [OF o o o dark_mode_not_blank]
    by (simp add: initial_page_def)
  show ?thesis
    using c groqRequest_cancelled categorizeMessage_failed [OF o, of 0 message_dark_mode]
      calculateUrgency_failed [OF o, of message_dark_mode JNull] h
      dark_mode_record [of 0 "''2024-05-01T10:00:00.000Z''"]
    by blast
qed

section \<open>Properties of the response decoder\<close>

lemma match_braces_wrapped:
  assumes "CHR ''{'' \<notin> set before" "CHR ''}'' \<notin> set after"
  shows "match_braces (before @ (CHR ''{'' # body @ [CHR ''}'']) @ after)
           = Some (CHR ''{'' # body @ [CHR ''}''])"
proof -
  have d: "dropWhile (\<lambda>c. c \<noteq> CHR ''{'') (before @ (CHR ''{'' # body @ [CHR ''}'']) @ after)
             = CHR ''{'' # body @ [CHR ''}''] @ after"
    using assms(1) by (auto simp add: dropWhile_append)
  have r: "rev (CHR ''{'' # body @ [CHR ''}''] @ after)
             = rev after @ CHR ''}'' # rev body @ [CHR ''{'']"
    by simp
  have e: "dropWhile (\<lambda>c. c \<noteq> CHR ''}'') (rev after @ CHR ''}'' # rev body @ [CHR ''{''])
             = CHR ''}'' # rev body @ [CHR ''{'']"
    using assms(2) by (auto simp add: dropWhile_append)
  show ?thesis
    unfolding match_braces_def Let_def d r e by simp
qed

lemma match_braces_none:
  assumes "CHR ''{'' \<notin> set content \<or> CHR ''}'' \<notin> set content"
  shows "match_braces content = None"
proof (cases "CHR ''{'' \<in> set content")
  case False
  then have "dropWhile (\<lambda>c. c \<noteq> CHR ''{'') content = []" by auto
  then show ?thesis by (simp add: match_braces_def)
next
  case True
  with assms have n: "CHR ''}'' \<notin> set content" by blast
  have "set (tl (dropWhile (\<lambda>c. c \<noteq> CHR ''{'') content)) \<subseteq> set content"
  proof
    fix x assume "x \<in> set (tl (dropWhile (\<lambda>c. c \<noteq> CHR ''{'') content))"
    then have "x \<in> set (dropWhile (\<lambda>c. c \<noteq> CHR ''{'') content)"
      by (cases "dropWhile (\<lambda>c. c \<noteq> CHR ''{'') content") simp_all
    then show "x \<in> set content" by (rule set_dropWhileD)
  qed
  with n have "CHR ''}'' \<notin> set (tl (dropWhile (\<lambda>c. c \<noteq> CHR ''{'') content))" by blast
  then show ?thesis by (simp add: match_braces_def Let_def)
qed

lemma parseJsonResponse_wrapped:
  assumes "CHR ''{'' \<notin> set before" "CHR ''}'' \<notin> set after"
  shows "parseJsonResponse (before @ (CHR ''{'' # body @ [CHR ''}'']) @ after)
           = (case JSON_parse (CHR ''{'' # body @ [CHR ''}'']) of Some v \<Rightarrow> v | None \<Rightarrow> JNull)"
  by (simp only: parseJsonResponse_def match_braces_wrapped [OF assms] option.case)

lemma fence_has_no_brace:
  "CHR ''{'' \<notin> set (''```json'' @ [CHR 0x0A])" "CHR ''}'' \<notin> set ([CHR 0x0A] @ ''```'')"
  by simp_all

text \<open>
  Claim C8, as stated, fails: the decoder takes the text from the first opening brace
  to the last closing brace, so prose that itself holds a brace after the object (or
  before it) is handed to the parser together with the object, and the result is null.
\<close>

theorem braces_in_prose_break_decoding:
  "parseJsonResponse reply_ok = JObject [(''ok'', JBool True)]
   \<and> parseJsonResponse (''Result: '' @ reply_ok @ '' (use {} for the defaults)'') = JNull"
  by code_simp

text \<open>
  Claim C8, amended. Let \<open>s\<close> be a text that begins with an opening brace and ends with
  a closing brace, such as the serialization of a JSON object. When the parser reads
  \<open>s\<close> as the object \<open>obj\<close>, decoding \<open>s\<close> alone, \<open>s\<close> inside a markdown code fence,
  and \<open>s\<close> between prose yield exactly \<open>obj\<close>, provided the prose before \<open>s\<close> has no
  opening brace and the prose after it no closing brace. When the parser refuses \<open>s\<close>
  the decoder yields null, as it does for every text without an opening or without a
  closing brace; it is a total function and raises nothing.
\<close>

theorem decode_round_trip:
  assumes "CHR ''{'' \<notin> set before" "CHR ''}'' \<notin> set after"
    and "s = CHR ''{'' # body @ [CHR ''}'']"
  shows "(JSON_parse s = Some obj
            \<longrightarrow> parseJsonResponse s = obj
                \<and> parseJsonResponse (fenced s) = obj
                \<and> parseJsonResponse (before @ s @ after) = obj)
         \<and> (JSON_parse s = None \<longrightarrow> parseJsonResponse (before @ s @ after) = JNull)
         \<and> (CHR ''{'' \<notin> set content \<or> CHR ''}'' \<notin> set content
            \<longrightarrow> parseJsonResponse content = JNull)"
proof (intro conjI impI)
  have plain: "parseJsonResponse s = (case JSON_parse s of Some v \<Rightarrow> v | None \<Rightarrow> JNull)"
    using parseJsonResponse_wrapped [of "[]" "[]" body] by (simp add: assms(3))
  have fence: "parseJsonResponse (fenced s) = (case JSON_parse s of Some v \<Rightarrow> v | None \<Rightarrow> JNull)"
    using parseJsonResponse_wrapped [OF fence_has_no_brace, of body]
    by (simp add: assms(3) fenced_def)
  have prose: "parseJsonResponse (before @ s @ after)
                 = (case JSON_parse s of Some v \<Rightarrow> v | None \<Rightarrow> JNull)"
    using parseJsonResponse_wrapped [OF assms(1,2), of body] by (simp add: assms(3))
  {
    assume "JSON_parse s = Some obj"
    then show "parseJsonResponse s = obj" "parseJsonResponse (fenced s) = obj"
      "parseJsonResponse (before @ s @ after) = obj"
      by (simp_all add: plain fence prose)
  }
  {
    assume "JSON_parse s = None"
    then show "parseJsonResponse (before @ s @ after) = JNull" by (simp add: prose)
  }
  {
    assume "CHR ''{'' \<notin> set content \<or> CHR ''}'' \<notin> set content"
    then show "parseJsonResponse content = JNull"
      by (simp add: parseJsonResponse_def match_braces_none)
  }
qed

lemma JSON_parse_reply_ok: "JSON_parse reply_ok = Some (JObject [(''ok'', JBool True)])"
  by code_simp

theorem decode_round_trip_witness:
  "parseJsonResponse reply_ok = JObject [(''ok'', JBool True)]
   \<and> parseJsonResponse (fenced reply_ok) = JObject [(''ok'', JBool True)]
   \<and> parseJsonResponse (''Here is the result: '' @ reply_ok @ '' Anything else?'')
       = JObject [(''ok'', JBool True)]
   \<and> parseJsonResponse ''I cannot answer that.'' = JNull"
proof -
  have a: "CHR ''{'' \<notin> set ''Here is the result: ''" by simp
  have b: "CHR ''}'' \<notin> set '' Anything else?''" by simp
  have s: "reply_ok = CHR ''{'' # (tl (butlast reply_ok)) @ [CHR ''}'']"
    by (simp add: reply_ok_def)
  note t = decode_round_trip [OF a b s, of "JObject [(''ok'', JBool True)]"
             "''I cannot answer that.''"]
  have n: "CHR ''{'' \<notin> set ''I cannot answer that.'' \<or> CHR ''}'' \<notin> set ''I cannot answer that.''"
    by simp
  from t [THEN conjunct1, rule_format, OF JSON_parse_reply_ok]
       t [THEN conjunct2, THEN conjunct2, rule_format, OF n]
  show ?thesis by blast
qed

section \<open>Properties of the JSON reader\<close>

text \<open>
  Every reader consumes at least one character of what it reads from, so the comparisons
  of lengths in \<open>parse_elements\<close> and \<open>parse_members\<close> never fail: both functions
  satisfy their recursion equations without them.
\<close>

lemma skip_ws_length: "length (skip_ws s) \<le> length s"
  by (simp add: skip_ws_def length_dropWhile_le)

lemma parse_int_part_shorter:
  "parse_int_part s = Some (i, rest) \<Longrightarrow> length rest < length s"
proof (cases s)
  case Nil
  assume "parse_int_part s = Some (i, rest)"
  with Nil show ?thesis by (simp add: parse_int_part_def)
next
  case (Cons c cs)
  assume "parse_int_part s = Some (i, rest)"
  with Cons length_dropWhile_le [of is_digit cs] show ?thesis
    by (auto simp add: parse_int_part_def split: if_splits)
qed

lemma parse_exp_digits_shorter:
  "parse_exp_digits neg s = Some (e, rest) \<Longrightarrow> length rest \<le> length s"
  using length_dropWhile_le [of is_digit s]
  by (auto simp add: parse_exp_digits_def Let_def split: if_splits)

lemma parse_frac_part_shorter:
  "parse_frac_part s = Some (f, rest) \<Longrightarrow> length rest \<le> length s"
proof (cases s)
  case Nil
  assume "parse_frac_part s = Some (f, rest)"
  with Nil show ?thesis by (simp add: parse_frac_part_def)
next
  case (Cons c cs)
  assume "parse_frac_part s = Some (f, rest)"
  with Cons length_dropWhile_le [of is_digit cs] show ?thesis
    by (auto simp add: parse_frac_part_def Let_def split: if_splits)
qed

lemma parse_exp_part_shorter:
  "parse_exp_part s = Some (e, rest) \<Longrightarrow> length rest \<le> length s"
proof (cases s)
  case Nil
  assume "parse_exp_part s = Some (e, rest)"
  with Nil show ?thesis by (simp add: parse_exp_part_def)
next
  case (Cons c cs)
  assume a: "parse_exp_part s = Some (e, rest)"
  show ?thesis
  proof (cases cs)
    case Nil
    with a Cons show ?thesis by (auto simp add: parse_exp_part_def split: if_splits)
  next
    case (Cons d ds)
    with a \<open>s = c # cs\<close> parse_exp_digits_shorter [of False ds e rest]
      parse_exp_digits_shorter [of True ds e rest] parse_exp_digits_shorter [of False cs e rest]
    show ?thesis by (auto simp add: parse_exp_part_def split: if_splits)
  qed
qed

lemma parse_number_shorter:
  assumes "parse_number s = Some (n, rest)"
  shows "length rest < length s"
proof -
  define s1 where "s1 = (if (case s of c # cs \<Rightarrow> c = CHR ''-'' | [] \<Rightarrow> False) then tl s else s)"
  have l1: "length s1 \<le> length s" by (simp add: s1_def)
  from assms obtain i s2 f s3 e where
    a: "parse_int_part s1 = Some (i, s2)" and b: "parse_frac_part s2 = Some (f, s3)"
    and c: "parse_exp_part s3 = Some (e, rest)"
    by (auto simp add: parse_number_def Let_def s1_def split: option.splits)
  from parse_int_part_shorter [OF a] parse_frac_part_shorter [OF b] parse_exp_part_shorter [OF c] l1
  show ?thesis by simp
qed



lemma parse_string_chars_shorter:
  "parse_string_chars acc s = Some (str, rest) \<Longrightarrow> length rest < length s"
proof (induction s arbitrary: acc rule: length_induct)
  case (1 s)
  have IH: "length rest < length ys"
    if "length ys < length s" "parse_string_chars acc' ys = Some (str, rest)" for ys acc'
    using "1.IH" that by blast
  show ?case
  proof (cases s)
    case Nil
    with "1.prems" show ?thesis by simp
  next
    case s: (Cons c cs)
    show ?thesis
    proof (cases "c = CHR 0x22")
      case True
      with "1.prems" s show ?thesis by simp
    next
      case notq: False
      show ?thesis
      proof (cases "c = CHR 0x5C")
        case False
        with notq "1.prems" s have "parse_string_chars (c # acc) cs = Some (str, rest)"
          by (simp split: if_splits)
        from IH [OF _ this] s show ?thesis by simp
      next
        case bs: True
        show ?thesis
        proof (cases cs)
          case Nil
          with notq bs "1.prems" s show ?thesis by simp
        next
          case cs: (Cons e r)
          show ?thesis
          proof (cases "e = CHR ''u''")
            case False
            with notq bs cs s "1.prems" obtain ch where
              "parse_string_chars (ch # acc) r = Some (str, rest)"
              by (auto split: option.splits)
            from IH [OF _ this] cs s show ?thesis by simp
          next
            case True
            with notq bs cs s "1.prems" have
              "\<exists>r' acc'. length r' < length r
                  \<and> parse_string_chars acc' r' = Some (str, rest)"
              apply (clarsimp simp add: Let_def split: list.splits option.splits if_splits)
              apply (intro exI conjI)
               prefer 2
               apply assumption
              apply simp
              done
            then obtain r' acc' where
              r: "length r' < length r"
              and p: "parse_string_chars acc' r' = Some (str, rest)"
              by blast
            from IH [OF _ p] r cs s show ?thesis by simp
          qed
        qed
      qed
    qed
  qed
qed

lemma parse_string_shorter:
  "parse_string s = Some (str, rest) \<Longrightarrow> length rest < length s"
  by (simp add: parse_string_def parse_string_chars_shorter)

lemma skip_ws_Cons_shorter: "skip_ws s = c # cs \<Longrightarrow> length cs < length s"
  using skip_ws_length [of s] by simp

lemma parse_value_step:
  assumes members: "\<And>t kvs rest. length t < length s \<Longrightarrow> parse_members t = Some (kvs, rest)
                      \<Longrightarrow> length rest < length t"
    and elements: "\<And>t vs rest. length t < length s \<Longrightarrow> parse_elements t = Some (vs, rest)
                      \<Longrightarrow> length rest < length t"
    and v: "parse_value s = Some (v, rest)"
  shows "length rest < length s"
proof (cases "skip_ws s")
  case Nil
  with v show ?thesis by (simp add: parse_value.simps [of s])
next
  case (Cons c cs)
  then have cs: "length cs < length s" by (rule skip_ws_Cons_shorter)
  have whole: "length (c # cs) \<le> length s" using skip_ws_length [of s] Cons by simp
  consider (obj) "c = CHR ''{''" | (arr) "c \<noteq> CHR ''{''" "c = CHR ''[''"
    | (str) "c \<noteq> CHR ''{''" "c \<noteq> CHR ''[''" "c = CHR 0x22"
    | (other) "c \<noteq> CHR ''{''" "c \<noteq> CHR ''[''" "c \<noteq> CHR 0x22"
    by blast
  then show ?thesis
  proof cases
    case obj
    show ?thesis
    proof (cases "skip_ws cs")
      case Nil
      with v Cons obj show ?thesis by (simp add: parse_value.simps [of s])
    next
      case inner: (Cons d ds)
      then have ds: "length ds < length cs" by (rule skip_ws_Cons_shorter)
      show ?thesis
      proof (cases "d = CHR ''}''")
        case True
        with v Cons obj inner have "rest = ds" by (simp add: parse_value.simps [of s])
        with ds cs show ?thesis by simp
      next
        case False
        with v Cons obj inner obtain kvs where "parse_members cs = Some (kvs, rest)"
          by (auto simp add: parse_value.simps [of s] split: option.splits)
        from members [OF cs this] cs show ?thesis by simp
      qed
    qed
  next
    case arr
    show ?thesis
    proof (cases "skip_ws cs")
      case Nil
      with v Cons arr show ?thesis by (simp add: parse_value.simps [of s])
    next
      case inner: (Cons d ds)
      then have ds: "length ds < length cs" by (rule skip_ws_Cons_shorter)
      show ?thesis
      proof (cases "d = CHR '']''")
        case True
        with v Cons arr inner have "rest = ds" by (simp add: parse_value.simps [of s])
        with ds cs show ?thesis by simp
      next
        case False
        with v Cons arr inner obtain vs where "parse_elements cs = Some (vs, rest)"
          by (auto simp add: parse_value.simps [of s] split: option.splits)
        from elements [OF cs this] cs show ?thesis by simp
      qed
    qed
  next
    case str
    with v Cons obtain x where "parse_string cs = Some (x, rest)"
      by (auto simp add: parse_value.simps [of s] split: option.splits)
    from parse_string_shorter [OF this] cs show ?thesis by simp
  next
    case other
    with v Cons have
      "rest = drop 4 (c # cs) \<or> rest = drop 5 (c # cs)
       \<or> (\<exists>n. parse_number (c # cs) = Some (n, rest))"
      by (auto simp add: parse_value.simps [of s] split: option.splits if_splits)
    then show ?thesis
    proof (elim disjE exE)
      assume "rest = drop 4 (c # cs)"
      with whole show ?thesis by simp
    next
      assume "rest = drop 5 (c # cs)"
      with whole show ?thesis by simp
    next
      fix n assume "parse_number (c # cs) = Some (n, rest)"
      from parse_number_shorter [OF this] whole show ?thesis by simp
    qed
  qed
qed

lemma parse_elements_step:
  assumes val: "\<And>v rest. parse_value s = Some (v, rest) \<Longrightarrow> length rest < length s"
    and elements: "\<And>t vs rest. length t < length s \<Longrightarrow> parse_elements t = Some (vs, rest)
                      \<Longrightarrow> length rest < length t"
    and e: "parse_elements s = Some (vs, rest)"
  shows "length rest < length s"
proof -
  from e obtain v r1 where v: "parse_value s = Some (v, r1)"
    by (auto simp add: parse_elements.simps [of s] split: option.splits)
  from val [OF v] have r1: "length r1 < length s" .
  from e v obtain c cs where sk: "skip_ws r1 = c # cs"
    by (auto simp add: parse_elements.simps [of s] split: list.splits)
  then have cs: "length cs < length r1" by (rule skip_ws_Cons_shorter)
  show ?thesis
  proof (cases "c = CHR '']''")
    case True
    with e v sk have "rest = cs" by (simp add: parse_elements.simps [of s])
    with cs r1 show ?thesis by simp
  next
    case False
    with e v sk obtain vs' where "parse_elements cs = Some (vs', rest)"
      by (auto simp add: parse_elements.simps [of s] split: option.splits if_splits)
    from elements [OF _ this] cs r1 show ?thesis by simp
  qed
qed

lemma parse_members_step:
  assumes val: "\<And>t v rest. length t < length s \<Longrightarrow> parse_value t = Some (v, rest)
                      \<Longrightarrow> length rest < length t"
    and members: "\<And>t kvs rest. length t < length s \<Longrightarrow> parse_members t = Some (kvs, rest)
                      \<Longrightarrow> length rest < length t"
    and m: "parse_members s = Some (kvs, rest)"
  shows "length rest < length s"
proof -
  from m obtain q cs where sk: "skip_ws s = q # cs" and q: "q = CHR 0x22"
    by (auto simp add: parse_members.simps [of s] split: list.splits if_splits)
  from sk have cs: "length cs < length s" by (rule skip_ws_Cons_shorter)
  from m sk q obtain key r0 where k: "parse_string cs = Some (key, r0)"
    by (auto simp add: parse_members.simps [of s] split: option.splits)
  from parse_string_shorter [OF k] have r0: "length r0 < length cs" .
  from m sk q k obtain colon r1 where sk1: "skip_ws r0 = colon # r1" and colon: "colon = CHR '':''"
    by (auto simp add: parse_members.simps [of s] split: list.splits if_splits)
  from sk1 have r1: "length r1 < length r0" by (rule skip_ws_Cons_shorter)
  with r0 cs have r1s: "length r1 < length s" by simp
  from m sk q k sk1 colon r1s obtain v r2 where v: "parse_value r1 = Some (v, r2)"
    by (auto simp add: parse_members.simps [of s] split: option.splits)
  from val [OF r1s v] have r2: "length r2 < length r1" .
  from m sk q k sk1 colon r1s v obtain c r3 where sk3: "skip_ws r2 = c # r3"
    by (auto simp add: parse_members.simps [of s] split: list.splits)
  then have r3: "length r3 < length r2" by (rule skip_ws_Cons_shorter)
  with r2 r1s have r3s: "length r3 < length s" by simp
  show ?thesis
  proof (cases "c = CHR ''}''")
    case True
    with m sk q k sk1 colon r1s v sk3 have "rest = r3"
      by (simp add: parse_members.simps [of s])
    with r3s show ?thesis by simp
  next
    case False
    with m sk q k sk1 colon r1s v sk3 r3s obtain kvs' where
      "parse_members r3 = Some (kvs', rest)"
      by (auto simp add: parse_members.simps [of s] split: option.splits if_splits)
    from members [OF r3s this] r3s show ?thesis by simp
  qed
qed

lemma parse_shorter:
  "(\<forall>v rest. parse_value s = Some (v, rest) \<longrightarrow> length rest < length s)
   \<and> (\<forall>vs rest. parse_elements s = Some (vs, rest) \<longrightarrow> length rest < length s)
   \<and> (\<forall>kvs rest. parse_members s = Some (kvs, rest) \<longrightarrow> length rest < length s)"
proof (induction s rule: length_induct)
  case (1 s)
  have val: "length rest < length s" if "parse_value s = Some (v, rest)" for v rest
    using "1.IH" that by (intro parse_value_step [of s v rest]) blast+
  have elements: "length rest < length s" if "parse_elements s = Some (vs, rest)" for vs rest
    using "1.IH" that val by (intro parse_elements_step [of s vs rest]) blast+
  have members: "length rest < length s" if "parse_members s = Some (kvs, rest)" for kvs rest
    using "1.IH" that by (intro parse_members_step [of s kvs rest]) blast+
  from val elements members show ?case by blast
qed

lemma parse_value_shorter: "parse_value s = Some (v, rest) \<Longrightarrow> length rest < length s"
  using parse_shorter [of s] by blast

text \<open>The recursion equations without the comparisons of lengths.\<close>

lemma parse_elements_unguarded:
  "parse_elements s =
     (case parse_value s of
        None \<Rightarrow> None
      | Some (v, rest) \<Rightarrow>
          (case skip_ws rest of
             [] \<Rightarrow> None
           | c # cs \<Rightarrow>
               if c = CHR '']'' then Some ([v], cs)
               else if c = CHR '','' then
                 (case parse_elements cs of
                    None \<Rightarrow> None
                  | Some (vs, rest') \<Rightarrow> Some (v # vs, rest'))
               else None))"
proof (cases "parse_value s")
  case None
  then show ?thesis by (simp add: parse_elements.simps [of s])
next
  case (Some p)
  obtain v rest where p: "p = (v, rest)" by (cases p)
  from parse_value_shorter [OF Some [unfolded p]] have r: "length rest < length s" .
  show ?thesis
  proof (cases "skip_ws rest")
    case Nil
    with Some p show ?thesis by (simp add: parse_elements.simps [of s])
  next
    case (Cons c cs)
    from skip_ws_Cons_shorter [OF this] r have "length cs < length s" by simp
    with Some p Cons show ?thesis by (simp add: parse_elements.simps [of s])
  qed
qed

lemma parse_members_unguarded:
  "parse_members s =
     (case skip_ws s of
        [] \<Rightarrow> None
      | q # cs \<Rightarrow>
          if q = CHR 0x22 then
            (case parse_string cs of
               None \<Rightarrow> None
             | Some (key, rest) \<Rightarrow>
                 (case skip_ws rest of
                    [] \<Rightarrow> None
                  | colon # rest1 \<Rightarrow>
                      if colon = CHR '':'' then
                        (case parse_value rest1 of
                           None \<Rightarrow> None
                         | Some (v, rest2) \<Rightarrow>
                             (case skip_ws rest2 of
                                [] \<Rightarrow> None
                              | c # rest3 \<Rightarrow>
                                  if c = CHR ''}'' then Some ([(key, v)], rest3)
                                  else if c = CHR '','' then
                                    (case parse_members rest3 of
                                       None \<Rightarrow> None
                                     | Some (kvs, rest') \<Rightarrow> Some ((key, v) # kvs, rest'))
                                  else None))
                      else None))
          else None)"
proof (cases "skip_ws s")
  case Nil
  then show ?thesis by (simp add: parse_members.simps [of s])
next
  case sk: (Cons q cs)
  from skip_ws_Cons_shorter [OF sk] have cs: "length cs < length s" .
  show ?thesis
  proof (cases "parse_string cs")
    case None
    with sk show ?thesis by (simp add: parse_members.simps [of s])
  next
    case (Some p)
    obtain key r0 where p: "p = (key, r0)" by (cases p)
    from parse_string_shorter [OF Some [unfolded p]] cs have r0: "length r0 < length s" by simp
    show ?thesis
    proof (cases "skip_ws r0")
      case Nil
      with sk Some p show ?thesis by (simp add: parse_members.simps [of s])
    next
      case sk1: (Cons colon r1)
      from skip_ws_Cons_shorter [OF sk1] r0 have r1: "length r1 < length s" by simp
      show ?thesis
      proof (cases "parse_value r1")
        case None
        with sk Some p sk1 r1 show ?thesis by (simp add: parse_members.simps [of s])
      next
        case v: (Some pv)
        obtain v' r2 where pv: "pv = (v', r2)" by (cases pv)
        from parse_value_shorter [OF v [unfolded pv]] r1 have r2: "length r2 < length s" by simp
        show ?thesis
        proof (cases "skip_ws r2")
          case Nil
          with sk Some p sk1 r1 v pv show ?thesis by (simp add: parse_members.simps [of s])
        next
          case sk3: (Cons c r3)
          from skip_ws_Cons_shorter [OF sk3] r2 have "length r3 < length s" by simp
          with sk Some p sk1 r1 v pv sk3 show ?thesis
            by (simp add: parse_members.simps [of s])
        qed
      qed
    qed
  qed
qed

end
